theory Spec2Isabelle
  imports Complex_Main "HOL-Library.Word"
begin

unbundle bit_operations_syntax

section \<open>Collision primitives (physics/collision.h, physics/collision.cpp)\<close>

text \<open>
  The engine's \<^verbatim>\<open>float\<close> is read as \<^typ>\<open>real\<close>: coordinates are added, multiplied,
  subtracted and compared, and nothing here depends on rounding, infinities or NaN.
  \<^verbatim>\<open>uint32_t\<close> is \<^typ>\<open>32 word\<close>. Members that the C++ writes with a trailing
  underscore lose it, and members of different structs that share a name get the
  struct's name as a prefix.
\<close>

subsection \<open>CollisionLayer\<close>

text \<open>
  \<^verbatim>\<open>enum class CollisionLayer : uint32_t\<close>: every 32-bit value is a value of the
  enumeration (the operators \<^verbatim>\<open>|\<close>, \<^verbatim>\<open>&\<close> and \<^verbatim>\<open>~\<close> build them), so the type is the
  word type and the enumerators are constants of it.
\<close>

type_synonym CollisionLayer = "32 word"

definition Layer_None :: CollisionLayer where "Layer_None = 0"
definition Layer_Default :: CollisionLayer where "Layer_Default = push_bit 0 1"
definition Layer_Player :: CollisionLayer where "Layer_Player = push_bit 1 1"
definition Layer_Enemy :: CollisionLayer where "Layer_Enemy = push_bit 2 1"
definition Layer_Projectile :: CollisionLayer where "Layer_Projectile = push_bit 3 1"
definition Layer_Terrain :: CollisionLayer where "Layer_Terrain = push_bit 4 1"
definition Layer_Trigger :: CollisionLayer where "Layer_Trigger = push_bit 5 1"
definition Layer_Pickup :: CollisionLayer where "Layer_Pickup = push_bit 6 1"
definition Layer_Platform :: CollisionLayer where "Layer_Platform = push_bit 7 1"
definition Layer_All :: CollisionLayer where "Layer_All = 0xFFFFFFFF"

definition hasLayer :: "CollisionLayer \<Rightarrow> CollisionLayer \<Rightarrow> bool" where
  "hasLayer msk lyr = (msk AND lyr \<noteq> Layer_None)"

subsection \<open>CollisionMask\<close>

record CollisionMask =
  layer :: CollisionLayer
  collidesWith :: CollisionLayer

definition CollisionMask_default :: CollisionMask where
  "CollisionMask_default = \<lparr>layer = Layer_Default, collidesWith = Layer_All\<rparr>"

definition canCollideWith :: "CollisionMask \<Rightarrow> CollisionMask \<Rightarrow> bool" where
  "canCollideWith this other =
     (let thisCanHitOther = hasLayer (collidesWith this) (layer other)
      in thisCanHitOther)"

subsection \<open>AABB\<close>

record AABB =
  AABB_x :: real
  AABB_y :: real
  AABB_width :: real
  AABB_height :: real

definition mkAABB :: "real \<Rightarrow> real \<Rightarrow> real \<Rightarrow> real \<Rightarrow> AABB" where
  "mkAABB px py w h = \<lparr>AABB_x = px, AABB_y = py, AABB_width = w, AABB_height = h\<rparr>"

definition left :: "AABB \<Rightarrow> real" where
  "left b = AABB_x b"

definition right :: "AABB \<Rightarrow> real" where
  "right b = AABB_x b + AABB_width b"

definition top :: "AABB \<Rightarrow> real" where
  "top b = AABB_y b"

definition bottom :: "AABB \<Rightarrow> real" where
  "bottom b = AABB_y b + AABB_height b"

definition contains :: "AABB \<Rightarrow> real \<Rightarrow> real \<Rightarrow> bool" where
  "contains b px py \<longleftrightarrow> px \<ge> left b \<and> px \<le> right b \<and> py \<ge> top b \<and> py \<le> bottom b"

definition intersects :: "AABB \<Rightarrow> AABB \<Rightarrow> bool" where
  "intersects this other \<longleftrightarrow>
     left this < right other \<and>
     right this > left other \<and>
     top this < bottom other \<and>
     bottom this > top other"

subsection \<open>CollisionInfo\<close>

type_synonym EntityID = "32 word"

record CollisionInfo =
  entityA :: EntityID
  entityB :: EntityID
  boundsA :: AABB
  boundsB :: AABB
  overlapX :: real
  overlapY :: real
  isTrigger :: bool

subsection \<open>ColliderComponent\<close>

text \<open>
  The component's own members and the \<^verbatim>\<open>enabled_\<close> flag of its base class
  \<^verbatim>\<open>Component\<close>; the base's back pointer to the owning entity is never read by the
  collision code and is left out.
\<close>

record ColliderComponent =
  col_width :: real
  col_height :: real
  col_offsetX :: real
  col_offsetY :: real
  col_collisionMask :: CollisionMask
  col_isTrigger :: bool
  col_enabled :: bool

definition ColliderComponent_sized ::
  "real \<Rightarrow> real \<Rightarrow> CollisionLayer \<Rightarrow> CollisionLayer \<Rightarrow> ColliderComponent" where
  "ColliderComponent_sized w h lyr msk =
     \<lparr>col_width = w, col_height = h, col_offsetX = 0, col_offsetY = 0,
      col_collisionMask = \<lparr>layer = lyr, collidesWith = msk\<rparr>,
      col_isTrigger = False, col_enabled = True\<rparr>"

definition getCollisionMask :: "ColliderComponent \<Rightarrow> CollisionMask" where
  "getCollisionMask c = col_collisionMask c"

definition getLayer :: "ColliderComponent \<Rightarrow> CollisionLayer" where
  "getLayer c = layer (col_collisionMask c)"

definition ColliderComponent_isTrigger :: "ColliderComponent \<Rightarrow> bool" where
  "ColliderComponent_isTrigger c = col_isTrigger c"

text \<open>The four-argument overload of \<^verbatim>\<open>ColliderComponent::getBounds\<close>.\<close>

definition getBounds ::
  "ColliderComponent \<Rightarrow> real \<Rightarrow> real \<Rightarrow> real \<Rightarrow> real \<Rightarrow> AABB" where
  "getBounds c entityX entityY sx sy =
     (let scaledWidth = col_width c * sx;
          scaledHeight = col_height c * sy;
          bx = entityX + col_offsetX c * sx;
          by' = entityY + col_offsetY c * sy
      in mkAABB bx by' scaledWidth scaledHeight)"

section \<open>The collision world (physics/collision_world.h, physics/collision_world.cpp)\<close>

subsection \<open>ColliderEntry\<close>

record ColliderEntry =
  entityId :: EntityID
  posX :: real
  posY :: real
  scaleX :: real
  scaleY :: real
  collider :: ColliderComponent

definition mkColliderEntry ::
  "EntityID \<Rightarrow> real \<Rightarrow> real \<Rightarrow> real \<Rightarrow> real \<Rightarrow> ColliderComponent \<Rightarrow> ColliderEntry" where
  "mkColliderEntry eid px py sx sy col =
     \<lparr>entityId = eid, posX = px, posY = py, scaleX = sx, scaleY = sy, collider = col\<rparr>"

definition ColliderEntry_getBounds :: "ColliderEntry \<Rightarrow> AABB" where
  "ColliderEntry_getBounds e = getBounds (collider e) (posX e) (posY e) (scaleX e) (scaleY e)"

subsection \<open>CollisionWorld: state\<close>

text \<open>
  \<^verbatim>\<open>colliders_\<close> is the dense vector of entries, \<^verbatim>\<open>entityIndexMap_\<close> the
  \<^verbatim>\<open>unordered_map\<close> from entity id to vector index, \<^verbatim>\<open>layerMatrix_\<close> the array of
  eight rows. A callback is a \<^verbatim>\<open>std::function\<close> that may be empty; a non-empty one
  acts on the state \<^typ>\<open>'s\<close> of whoever installed it, so \<^verbatim>\<open>processCollisions\<close>
  threads that state through the calls it makes.
\<close>

record 's CollisionWorld =
  colliders :: "ColliderEntry list"
  entityIndexMap :: "EntityID \<rightharpoonup> nat"
  onCollision :: "(CollisionInfo \<Rightarrow> 's \<Rightarrow> 's) option"
  onTriggerEnter :: "(EntityID \<Rightarrow> EntityID \<Rightarrow> 's \<Rightarrow> 's) option"
  onTriggerExit :: "(EntityID \<Rightarrow> EntityID \<Rightarrow> 's \<Rightarrow> 's) option"
  layerMatrix :: "32 word list"

text \<open>The constructor: no entries, no callbacks, every row of the matrix all ones.\<close>

definition CollisionWorld_new :: "'s CollisionWorld" where
  "CollisionWorld_new =
     \<lparr>colliders = [], entityIndexMap = Map.empty,
      onCollision = None, onTriggerEnter = None, onTriggerExit = None,
      layerMatrix = replicate 8 0xFFFFFFFF\<rparr>"

subsection \<open>Registration\<close>

text \<open>
  \<^verbatim>\<open>removeCollider\<close>: nothing when the id is not in the map; otherwise the entry at
  the id's index is overwritten by the last entry unless it is the last one, the moved
  entry's id is re-pointed at that index, the last slot is popped and the id erased.
  The vector is indexed without a bounds check in the C++; the indices the map holds
  are in range in every world built from the constructor (see \<open>wf_world\<close> below), and
  the vector is then non-empty whenever the lookup succeeds, so \<^verbatim>\<open>size() - 1\<close> does
  not wrap.
\<close>

definition removeCollider :: "'s CollisionWorld \<Rightarrow> EntityID \<Rightarrow> 's CollisionWorld" where
  "removeCollider w eid =
     (case entityIndexMap w eid of
        None \<Rightarrow> w
      | Some index \<Rightarrow>
          (let w1 = (if index < length (colliders w) - 1
                     then (let cs = (colliders w)[index := last (colliders w)]
                           in w\<lparr>colliders := cs,
                                entityIndexMap := (entityIndexMap w)(entityId (cs ! index) \<mapsto> index)\<rparr>)
                     else w)
           in w1\<lparr>colliders := butlast (colliders w1),
                 entityIndexMap := (entityIndexMap w1)(eid := None)\<rparr>))"

text \<open>The six-argument overload of \<^verbatim>\<open>addCollider\<close>.\<close>

definition addCollider_scaled ::
  "'s CollisionWorld \<Rightarrow> EntityID \<Rightarrow> real \<Rightarrow> real \<Rightarrow> real \<Rightarrow> real \<Rightarrow> ColliderComponent
     \<Rightarrow> 's CollisionWorld" where
  "addCollider_scaled w eid px py sx sy col =
     (let w1 = (if entityIndexMap w eid \<noteq> None then removeCollider w eid else w);
          cs = colliders w1 @ [mkColliderEntry eid px py sx sy col]
      in w1\<lparr>colliders := cs,
            entityIndexMap := (entityIndexMap w1)(eid \<mapsto> length cs - 1)\<rparr>)"

definition addCollider ::
  "'s CollisionWorld \<Rightarrow> EntityID \<Rightarrow> real \<Rightarrow> real \<Rightarrow> ColliderComponent \<Rightarrow> 's CollisionWorld" where
  "addCollider w eid px py col = addCollider_scaled w eid px py 1 1 col"

definition updatePosition :: "'s CollisionWorld \<Rightarrow> EntityID \<Rightarrow> real \<Rightarrow> real \<Rightarrow> 's CollisionWorld" where
  "updatePosition w eid px py =
     (case entityIndexMap w eid of
        Some i \<Rightarrow> w\<lparr>colliders := (colliders w)[i := (colliders w ! i)\<lparr>posX := px, posY := py\<rparr>]\<rparr>
      | None \<Rightarrow> w)"

definition updateScale :: "'s CollisionWorld \<Rightarrow> EntityID \<Rightarrow> real \<Rightarrow> real \<Rightarrow> 's CollisionWorld" where
  "updateScale w eid sx sy =
     (case entityIndexMap w eid of
        Some i \<Rightarrow> w\<lparr>colliders := (colliders w)[i := (colliders w ! i)\<lparr>scaleX := sx, scaleY := sy\<rparr>]\<rparr>
      | None \<Rightarrow> w)"

definition clear :: "'s CollisionWorld \<Rightarrow> 's CollisionWorld" where
  "clear w = w\<lparr>colliders := [], entityIndexMap := Map.empty\<rparr>"

definition hasCollider :: "'s CollisionWorld \<Rightarrow> EntityID \<Rightarrow> bool" where
  "hasCollider w eid \<longleftrightarrow> entityIndexMap w eid \<noteq> None"

text \<open>\<^verbatim>\<open>getCollider\<close> returns a pointer to the entry, or null: here the entry or \<open>None\<close>.\<close>

definition getCollider :: "'s CollisionWorld \<Rightarrow> EntityID \<Rightarrow> ColliderEntry option" where
  "getCollider w eid =
     (case entityIndexMap w eid of
        Some i \<Rightarrow> Some (colliders w ! i)
      | None \<Rightarrow> None)"

definition getColliderCount :: "'s CollisionWorld \<Rightarrow> nat" where
  "getColliderCount w = length (colliders w)"

subsection \<open>Detection\<close>

text \<open>
  \<^verbatim>\<open>detectCollisions\<close>: the inner loop runs \<open>j\<close> from its start value to the end of
  the vector for a fixed entry \<open>a\<close> with bounds \<open>bA\<close>; the outer loop runs \<open>i\<close> and
  starts the inner one at \<open>i + 1\<close>. \<open>results\<close> is the vector being filled.
\<close>

function detectCollisions_inner ::
  "ColliderEntry list \<Rightarrow> ColliderEntry \<Rightarrow> AABB \<Rightarrow> nat \<Rightarrow> CollisionInfo list \<Rightarrow> CollisionInfo list" where
  "detectCollisions_inner cs a bA j results =
     (if j < length cs
      then (let b = cs ! j;
                bB = ColliderEntry_getBounds b
            in if intersects bA bB
               then (let overlapLeft = right bA - left bB;
                         overlapRight = right bB - left bA;
                         overlapTop = bottom bA - top bB;
                         overlapBottom = bottom bB - top bA;
                         info = \<lparr>entityA = entityId a, entityB = entityId b,
                                 boundsA = bA, boundsB = bB,
                                 overlapX = min overlapLeft overlapRight,
                                 overlapY = min overlapTop overlapBottom,
                                 isTrigger = (ColliderComponent_isTrigger (collider a)
                                              \<or> ColliderComponent_isTrigger (collider b))\<rparr>
                     in detectCollisions_inner cs a bA (j + 1) (results @ [info]))
               else detectCollisions_inner cs a bA (j + 1) results)
      else results)"
  by pat_completeness auto
termination
  by (relation "measure (\<lambda>(cs, a, bA, j, results). length cs - j)") auto

function detectCollisions_outer ::
  "ColliderEntry list \<Rightarrow> nat \<Rightarrow> CollisionInfo list \<Rightarrow> CollisionInfo list" where
  "detectCollisions_outer cs i results =
     (if i < length cs
      then (let a = cs ! i;
                bA = ColliderEntry_getBounds a
            in detectCollisions_outer cs (i + 1) (detectCollisions_inner cs a bA (i + 1) results))
      else results)"
  by pat_completeness auto
termination
  by (relation "measure (\<lambda>(cs, i, results). length cs - i)") auto

definition detectCollisions :: "'s CollisionWorld \<Rightarrow> CollisionInfo list" where
  "detectCollisions w = detectCollisions_outer (colliders w) 0 []"

text \<open>
  \<^verbatim>\<open>detectCollisionsForEntity\<close>: the loop over all entries against the target
  \<open>tgt\<close> with bounds \<open>tB\<close>; the two \<^verbatim>\<open>continue\<close> statements are the branches that go
  on with \<open>results\<close> unchanged.
\<close>

function detectCollisionsForEntity_loop ::
  "ColliderEntry list \<Rightarrow> EntityID \<Rightarrow> ColliderEntry \<Rightarrow> AABB \<Rightarrow> nat \<Rightarrow> CollisionInfo list
     \<Rightarrow> CollisionInfo list" where
  "detectCollisionsForEntity_loop cs eid tgt tB i results =
     (if i < length cs
      then (if entityId (cs ! i) = eid
            then detectCollisionsForEntity_loop cs eid tgt tB (i + 1) results
            else (let other = cs ! i;
                      oB = ColliderEntry_getBounds other
                  in if intersects tB oB
                     then (let maskA = getCollisionMask (collider tgt);
                               maskB = getCollisionMask (collider other)
                           in if \<not> canCollideWith maskA maskB
                              then detectCollisionsForEntity_loop cs eid tgt tB (i + 1) results
                              else (let overlapLeft = right tB - left oB;
                                        overlapRight = right oB - left tB;
                                        overlapTop = bottom tB - top oB;
                                        overlapBottom = bottom oB - top tB;
                                        info = \<lparr>entityA = entityId tgt, entityB = entityId other,
                                                boundsA = tB, boundsB = oB,
                                                overlapX = min overlapLeft overlapRight,
                                                overlapY = min overlapTop overlapBottom,
                                                isTrigger = (ColliderComponent_isTrigger (collider tgt)
                                                             \<or> ColliderComponent_isTrigger (collider other))\<rparr>
                                    in detectCollisionsForEntity_loop cs eid tgt tB (i + 1)
                                         (results @ [info])))
                     else detectCollisionsForEntity_loop cs eid tgt tB (i + 1) results))
      else results)"
  by pat_completeness auto
termination
  by (relation "measure (\<lambda>(cs, eid, tgt, tB, i, results). length cs - i)") auto

definition detectCollisionsForEntity :: "'s CollisionWorld \<Rightarrow> EntityID \<Rightarrow> CollisionInfo list" where
  "detectCollisionsForEntity w eid =
     (case entityIndexMap w eid of
        None \<Rightarrow> []
      | Some idx \<Rightarrow>
          (let tgt = colliders w ! idx;
               tB = ColliderEntry_getBounds tgt
           in detectCollisionsForEntity_loop (colliders w) eid tgt tB 0 []))"

subsection \<open>Queries\<close>

text \<open>The range-for loops of the two queries, over the entries still to visit.\<close>

fun queryPoint_loop ::
  "ColliderEntry list \<Rightarrow> real \<Rightarrow> real \<Rightarrow> CollisionLayer \<Rightarrow> EntityID list \<Rightarrow> EntityID list" where
  "queryPoint_loop [] px py layerFilter results = results"
| "queryPoint_loop (entry # rest) px py layerFilter results =
     (let bounds = ColliderEntry_getBounds entry
      in if contains bounds px py
         then (if hasLayer layerFilter (getLayer (collider entry))
               then queryPoint_loop rest px py layerFilter (results @ [entityId entry])
               else queryPoint_loop rest px py layerFilter results)
         else queryPoint_loop rest px py layerFilter results)"

definition queryPoint_filtered ::
  "'s CollisionWorld \<Rightarrow> real \<Rightarrow> real \<Rightarrow> CollisionLayer \<Rightarrow> EntityID list" where
  "queryPoint_filtered w px py layerFilter = queryPoint_loop (colliders w) px py layerFilter []"

definition queryPoint :: "'s CollisionWorld \<Rightarrow> real \<Rightarrow> real \<Rightarrow> EntityID list" where
  "queryPoint w px py = queryPoint_filtered w px py Layer_All"

fun queryAABB_loop ::
  "ColliderEntry list \<Rightarrow> AABB \<Rightarrow> CollisionLayer \<Rightarrow> EntityID list \<Rightarrow> EntityID list" where
  "queryAABB_loop [] bounds layerFilter results = results"
| "queryAABB_loop (entry # rest) bounds layerFilter results =
     (let entryBounds = ColliderEntry_getBounds entry
      in if intersects bounds entryBounds
         then queryAABB_loop rest bounds layerFilter (results @ [entityId entry])
         else queryAABB_loop rest bounds layerFilter results)"

definition queryAABB_filtered ::
  "'s CollisionWorld \<Rightarrow> AABB \<Rightarrow> CollisionLayer \<Rightarrow> EntityID list" where
  "queryAABB_filtered w bounds layerFilter = queryAABB_loop (colliders w) bounds layerFilter []"

definition queryAABB :: "'s CollisionWorld \<Rightarrow> AABB \<Rightarrow> EntityID list" where
  "queryAABB w bounds = queryAABB_filtered w bounds Layer_All"

subsection \<open>Pair check\<close>

text \<open>
  The three-argument \<^verbatim>\<open>checkCollision\<close> writes through the reference \<open>outInfo\<close>:
  the model takes the caller's record and returns it with the verdict.
\<close>

definition checkCollision_info ::
  "'s CollisionWorld \<Rightarrow> EntityID \<Rightarrow> EntityID \<Rightarrow> CollisionInfo \<Rightarrow> bool \<times> CollisionInfo" where
  "checkCollision_info w a b outInfo =
     (case (entityIndexMap w a, entityIndexMap w b) of
        (Some ia, Some ib) \<Rightarrow>
          (let entryA = colliders w ! ia;
               entryB = colliders w ! ib;
               bA = ColliderEntry_getBounds entryA;
               bB = ColliderEntry_getBounds entryB
           in if \<not> intersects bA bB then (False, outInfo)
              else (let maskA = getCollisionMask (collider entryA);
                        maskB = getCollisionMask (collider entryB)
                    in if \<not> canCollideWith maskA maskB then (False, outInfo)
                       else (let overlapLeft = right bA - left bB;
                                 overlapRight = right bB - left bA;
                                 overlapTop = bottom bA - top bB;
                                 overlapBottom = bottom bB - top bA
                             in (True,
                                 outInfo\<lparr>entityA := a, entityB := b,
                                         boundsA := bA, boundsB := bB,
                                         isTrigger := (ColliderComponent_isTrigger (collider entryA)
                                                       \<or> ColliderComponent_isTrigger (collider entryB)),
                                         overlapX := min overlapLeft overlapRight,
                                         overlapY := min overlapTop overlapBottom\<rparr>))))
      | _ \<Rightarrow> (False, outInfo))"

text \<open>
  The two-argument overload passes a local, uninitialised \<open>CollisionInfo\<close> and returns
  only the verdict, which does not depend on what the record held.
\<close>

definition checkCollision :: "'s CollisionWorld \<Rightarrow> EntityID \<Rightarrow> EntityID \<Rightarrow> bool" where
  "checkCollision w a b = fst (checkCollision_info w a b undefined)"

subsection \<open>Callback dispatch\<close>

fun processCollisions_loop ::
  "'s CollisionWorld \<Rightarrow> CollisionInfo list \<Rightarrow> 's \<Rightarrow> 's" where
  "processCollisions_loop w [] s = s"
| "processCollisions_loop w (info # rest) s =
     (if isTrigger info
      then (case onTriggerEnter w of
              Some f \<Rightarrow> processCollisions_loop w rest (f (entityA info) (entityB info) s)
            | None \<Rightarrow> processCollisions_loop w rest s)
      else (case onCollision w of
              Some g \<Rightarrow> processCollisions_loop w rest (g info s)
            | None \<Rightarrow> processCollisions_loop w rest s))"

definition processCollisions :: "'s CollisionWorld \<Rightarrow> 's \<Rightarrow> 's" where
  "processCollisions w s = (let collisions = detectCollisions w in processCollisions_loop w collisions s)"

definition setCollisionCallback ::
  "'s CollisionWorld \<Rightarrow> (CollisionInfo \<Rightarrow> 's \<Rightarrow> 's) option \<Rightarrow> 's CollisionWorld" where
  "setCollisionCallback w callback = w\<lparr>onCollision := callback\<rparr>"

definition setTriggerEnterCallback ::
  "'s CollisionWorld \<Rightarrow> (EntityID \<Rightarrow> EntityID \<Rightarrow> 's \<Rightarrow> 's) option \<Rightarrow> 's CollisionWorld" where
  "setTriggerEnterCallback w callback = w\<lparr>onTriggerEnter := callback\<rparr>"

definition setTriggerExitCallback ::
  "'s CollisionWorld \<Rightarrow> (EntityID \<Rightarrow> EntityID \<Rightarrow> 's \<Rightarrow> 's) option \<Rightarrow> 's CollisionWorld" where
  "setTriggerExitCallback w callback = w\<lparr>onTriggerExit := callback\<rparr>"

subsection \<open>Layer matrix\<close>

text \<open>
  Both loops run \<open>i\<close> from its start value up to 7. \<^verbatim>\<open>l1 & (1 << i)\<close> is non-zero
  exactly when the test below holds; the row is only read or written for \<open>i < 8\<close>.
\<close>

function setLayerCollisionEnabled_loop ::
  "32 word list \<Rightarrow> 32 word \<Rightarrow> 32 word \<Rightarrow> bool \<Rightarrow> nat \<Rightarrow> 32 word list" where
  "setLayerCollisionEnabled_loop m l1 l2 enabled i =
     (if i < 8
      then (let m1 = (if l1 AND push_bit i 1 \<noteq> 0
                      then (if enabled then m[i := m ! i OR l2] else m[i := m ! i AND NOT l2])
                      else m);
                m2 = (if l2 AND push_bit i 1 \<noteq> 0
                      then (if enabled then m1[i := m1 ! i OR l1] else m1[i := m1 ! i AND NOT l1])
                      else m1)
            in setLayerCollisionEnabled_loop m2 l1 l2 enabled (i + 1))
      else m)"
  by pat_completeness auto
termination
  by (relation "measure (\<lambda>(m, l1, l2, enabled, i). 8 - i)") auto

definition setLayerCollisionEnabled ::
  "'s CollisionWorld \<Rightarrow> CollisionLayer \<Rightarrow> CollisionLayer \<Rightarrow> bool \<Rightarrow> 's CollisionWorld" where
  "setLayerCollisionEnabled w layer1 layer2 enabled =
     w\<lparr>layerMatrix := setLayerCollisionEnabled_loop (layerMatrix w) layer1 layer2 enabled 0\<rparr>"

function isLayerCollisionEnabled_loop :: "32 word list \<Rightarrow> 32 word \<Rightarrow> 32 word \<Rightarrow> nat \<Rightarrow> bool" where
  "isLayerCollisionEnabled_loop m l1 l2 i =
     (if i < 8
      then (if l1 AND push_bit i 1 \<noteq> 0
            then (if \<not> (m ! i AND l2 \<noteq> 0) then False
                  else isLayerCollisionEnabled_loop m l1 l2 (i + 1))
            else isLayerCollisionEnabled_loop m l1 l2 (i + 1))
      else True)"
  by pat_completeness auto
termination
  by (relation "measure (\<lambda>(m, l1, l2, i). 8 - i)") auto

definition isLayerCollisionEnabled ::
  "'s CollisionWorld \<Rightarrow> CollisionLayer \<Rightarrow> CollisionLayer \<Rightarrow> bool" where
  "isLayerCollisionEnabled w layer1 layer2 = isLayerCollisionEnabled_loop (layerMatrix w) layer1 layer2 0"

subsection \<open>Well-formed worlds\<close>

text \<open>
  The index map and the vector agree: the ids in the map are the ids of the entries,
  each entry's id is mapped to that entry's index, and the matrix has its eight rows.
\<close>

definition wf_world :: "'s CollisionWorld \<Rightarrow> bool" where
  "wf_world w \<longleftrightarrow>
     dom (entityIndexMap w) = entityId ` set (colliders w) \<and>
     (\<forall>i < length (colliders w). entityIndexMap w (entityId (colliders w ! i)) = Some i) \<and>
     length (layerMatrix w) = 8"

subsection \<open>Auxiliary notions for the proofs\<close>

text \<open>
  The agreement of map and vector as one equivalence: the map sends an id to an index
  exactly when that index is in range and holds the entry with that id.
\<close>

definition index_agrees :: "(EntityID \<rightharpoonup> nat) \<Rightarrow> ColliderEntry list \<Rightarrow> bool" where
  "index_agrees m cs \<longleftrightarrow>
     (\<forall>eid i. m eid = Some i \<longleftrightarrow> i < length cs \<and> entityId (cs ! i) = eid)"

text \<open>The vector after \<^verbatim>\<open>removeCollider\<close> found the id at \<open>index\<close>.\<close>

definition swap_remove :: "ColliderEntry list \<Rightarrow> nat \<Rightarrow> ColliderEntry list" where
  "swap_remove cs index = (if index < length cs - 1 then butlast (cs[index := last cs]) else butlast cs)"

text \<open>
  Row \<open>k\<close> of the matrix after \<^verbatim>\<open>setLayerCollisionEnabled(l1, l2, false)\<close>, from its
  old value \<open>r\<close>.
\<close>

definition row_after_disable :: "32 word \<Rightarrow> 32 word \<Rightarrow> nat \<Rightarrow> 32 word \<Rightarrow> 32 word" where
  "row_after_disable l1 l2 k r =
     (let r1 = (if bit l1 k then r AND NOT l2 else r)
      in if bit l2 k then r1 AND NOT l1 else r1)"

text \<open>
  The record every positive path fills in for the ordered pair of entries \<open>(a, b)\<close>.
\<close>

definition collisionInfo_of :: "ColliderEntry \<Rightarrow> ColliderEntry \<Rightarrow> CollisionInfo" where
  "collisionInfo_of a b =
     \<lparr>entityA = entityId a, entityB = entityId b,
      boundsA = ColliderEntry_getBounds a, boundsB = ColliderEntry_getBounds b,
      overlapX = min (right (ColliderEntry_getBounds a) - left (ColliderEntry_getBounds b))
                     (right (ColliderEntry_getBounds b) - left (ColliderEntry_getBounds a)),
      overlapY = min (bottom (ColliderEntry_getBounds a) - top (ColliderEntry_getBounds b))
                     (bottom (ColliderEntry_getBounds b) - top (ColliderEntry_getBounds a)),
      isTrigger = (col_isTrigger (collider a) \<or> col_isTrigger (collider b))\<rparr>"

text \<open>The calls a dispatch makes, for callbacks that only record them.\<close>

datatype Dispatch = TriggerEnterCall EntityID EntityID | CollisionCall CollisionInfo

text \<open>
  The records \<^verbatim>\<open>detectCollisions\<close> appends while the outer loop is at index \<open>k\<close>.
\<close>

definition pairs_from :: "ColliderEntry list \<Rightarrow> nat \<Rightarrow> CollisionInfo list" where
  "pairs_from cs k =
     map (collisionInfo_of (cs ! k))
       (filter (\<lambda>b. intersects (ColliderEntry_getBounds (cs ! k)) (ColliderEntry_getBounds b))
          (drop (k + 1) cs))"

text \<open>
  What a positive result says about its own fields: the boxes intersect, the overlap
  depths are the two minima, and both are non-negative.
\<close>

definition overlap_formula :: "CollisionInfo \<Rightarrow> bool" where
  "overlap_formula info \<longleftrightarrow>
     intersects (boundsA info) (boundsB info)
     \<and> overlapX info = min (right (boundsA info) - left (boundsB info))
                           (right (boundsB info) - left (boundsA info))
     \<and> overlapY info = min (bottom (boundsA info) - top (boundsB info))
                           (bottom (boundsB info) - top (boundsA info))
     \<and> 0 \<le> overlapX info \<and> 0 \<le> overlapY info"

text \<open>The two sides of a result are entries of the world, with their ids and bounds.\<close>

definition of_registered_pair :: "'s CollisionWorld \<Rightarrow> CollisionInfo \<Rightarrow> bool" where
  "of_registered_pair w info \<longleftrightarrow>
     (\<exists>ea \<in> set (colliders w). \<exists>eb \<in> set (colliders w).
        entityA info = entityId ea \<and> boundsA info = ColliderEntry_getBounds ea
        \<and> entityB info = entityId eb \<and> boundsB info = ColliderEntry_getBounds eb)"

text \<open>An entry with its collision mask replaced, everything else kept.\<close>

definition with_mask :: "(ColliderEntry \<Rightarrow> CollisionMask) \<Rightarrow> ColliderEntry \<Rightarrow> ColliderEntry" where
  "with_mask fm e = e\<lparr>collider := (collider e)\<lparr>col_collisionMask := fm e\<rparr>\<rparr>"

text \<open>What \<^verbatim>\<open>processCollisions\<close> does with one result.\<close>

definition dispatch_step :: "'s CollisionWorld \<Rightarrow> CollisionInfo \<Rightarrow> 's \<Rightarrow> 's" where
  "dispatch_step w info =
     (if isTrigger info
      then (case onTriggerEnter w of Some f \<Rightarrow> f (entityA info) (entityB info) | None \<Rightarrow> id)
      else (case onCollision w of Some g \<Rightarrow> g info | None \<Rightarrow> id))"

text \<open>Callbacks that append the call they receive to a log, and the call a result leads to.\<close>

definition log_trigger :: "EntityID \<Rightarrow> EntityID \<Rightarrow> Dispatch list \<Rightarrow> Dispatch list" where
  "log_trigger a b t = t @ [TriggerEnterCall a b]"

definition log_collision :: "CollisionInfo \<Rightarrow> Dispatch list \<Rightarrow> Dispatch list" where
  "log_collision info t = t @ [CollisionCall info]"

definition dispatch_of :: "CollisionInfo \<Rightarrow> Dispatch" where
  "dispatch_of info =
     (if isTrigger info then TriggerEnterCall (entityA info) (entityB info) else CollisionCall info)"

subsection \<open>Example worlds\<close>

text \<open>
  A 10 by 10 box of the default layer; a world holding it once, as entity 1; a world
  with entities 1, 2 and 3.
\<close>

definition box10 :: ColliderComponent where
  "box10 = ColliderComponent_sized 10 10 Layer_Default Layer_All"

definition world_one :: "unit CollisionWorld" where
  "world_one = addCollider CollisionWorld_new 1 0 0 box10"

definition world_three :: "unit CollisionWorld" where
  "world_three =
     addCollider (addCollider (addCollider CollisionWorld_new 1 0 0 box10) 2 5 5 box10) 3 100 100 box10"

text \<open>
  Two overlapping boxes at \<open>(0,0)\<close> and \<open>(5,5)\<close>: entity 1 is a Player that only
  collides with Terrain, entity 2 an Enemy that collides with everything. The same
  world with logging callbacks installed.
\<close>

definition player_vs_terrain :: ColliderComponent where
  "player_vs_terrain = ColliderComponent_sized 10 10 Layer_Player Layer_Terrain"

definition enemy_vs_all :: ColliderComponent where
  "enemy_vs_all = ColliderComponent_sized 10 10 Layer_Enemy Layer_All"

definition world_masked :: "'s CollisionWorld" where
  "world_masked =
     addCollider (addCollider CollisionWorld_new 1 0 0 player_vs_terrain) 2 5 5 enemy_vs_all"

definition world_logged :: "Dispatch list CollisionWorld" where
  "world_logged =
     setCollisionCallback (setTriggerEnterCallback world_masked (Some log_trigger)) (Some log_collision)"

declare detectCollisions_inner.simps [simp del]
declare detectCollisions_outer.simps [simp del]
declare detectCollisionsForEntity_loop.simps [simp del]
declare setLayerCollisionEnabled_loop.simps [simp del]
declare isLayerCollisionEnabled_loop.simps [simp del]

section \<open>Geometry\<close>

text \<open>
  C5. \<^const>\<open>intersects\<close> holds exactly when all four strict comparisons
  \<open>A.left < B.right\<close>, \<open>A.right > B.left\<close>, \<open>A.top < B.bottom\<close> and \<open>A.bottom > B.top\<close>
  hold; the boxes \<open>(0,0,10,10)\<close> and \<open>(10,0,10,10)\<close>, which share one edge and have no
  overlap area, do not intersect.
\<close>

theorem intersects_strict:
  "(intersects A B \<longleftrightarrow>
      AABB_x A < AABB_x B + AABB_width B \<and> AABB_x A + AABB_width A > AABB_x B \<and>
      AABB_y A < AABB_y B + AABB_height B \<and> AABB_y A + AABB_height A > AABB_y B)
   \<and> (intersects A B \<longleftrightarrow>
      left A < right B \<and> right A > left B \<and> top A < bottom B \<and> bottom A > top B)
   \<and> \<not> intersects (mkAABB 0 0 10 10) (mkAABB 10 0 10 10)
   \<and> \<not> intersects (mkAABB 10 0 10 10) (mkAABB 0 0 10 10)"
  by (simp add: intersects_def left_def right_def top_def bottom_def mkAABB_def)

section \<open>Layer matrix\<close>


lemma isLayerCollisionEnabled_loop_iff:
  "isLayerCollisionEnabled_loop m l1 l2 i \<longleftrightarrow>
     (\<forall>k. i \<le> k \<and> k < 8 \<and> bit l1 k \<longrightarrow> m ! k AND l2 \<noteq> 0)"
proof (induction m l1 l2 i rule: isLayerCollisionEnabled_loop.induct)
  case (1 m l1 l2 i)
  show ?case
  proof (cases "i < 8")
    case False
    then have nk: "\<And>k. \<not> (i \<le> k \<and> k < 8)" by arith
    show ?thesis
      by (subst isLayerCollisionEnabled_loop.simps) (use False nk in auto)
  next
    case True
    have step: "(\<forall>k. i \<le> k \<and> k < 8 \<and> bit l1 k \<longrightarrow> m ! k AND l2 \<noteq> 0) \<longleftrightarrow>
          ((bit l1 i \<longrightarrow> m ! i AND l2 \<noteq> 0) \<and>
           (\<forall>k. i + 1 \<le> k \<and> k < 8 \<and> bit l1 k \<longrightarrow> m ! k AND l2 \<noteq> 0))"
      (is "?L = ?R")
    proof
      assume l: ?L
      have "bit l1 i \<longrightarrow> m ! i AND l2 \<noteq> 0" using l True by blast
      moreover have "\<forall>k. i + 1 \<le> k \<and> k < 8 \<and> bit l1 k \<longrightarrow> m ! k AND l2 \<noteq> 0"
      proof (intro allI impI)
        fix k assume k: "i + 1 \<le> k \<and> k < 8 \<and> bit l1 k"
        then have "i \<le> k" by arith
        with k l show "m ! k AND l2 \<noteq> 0" by blast
      qed
      ultimately show ?R by blast
    next
      assume r: ?R
      show ?L
      proof (intro allI impI)
        fix k assume k: "i \<le> k \<and> k < 8 \<and> bit l1 k"
        then consider "k = i" | "i + 1 \<le> k" by arith
        then show "m ! k AND l2 \<noteq> 0"
        proof cases
          case 1
          with k r show ?thesis by blast
        next
          case 2
          with k r show ?thesis by blast
        qed
      qed
    qed
    show ?thesis
    proof (cases "bit l1 i")
      case b: True
      show ?thesis
      proof (cases "m ! i AND l2 \<noteq> 0")
        case True
        show ?thesis
          by (subst isLayerCollisionEnabled_loop.simps, subst step)
             (use True b \<open>i < 8\<close> "1.IH"(1) in \<open>simp add: and_exp_eq_0_iff_not_bit\<close>)
      next
        case False
        show ?thesis
          by (subst isLayerCollisionEnabled_loop.simps, subst step)
             (use False b \<open>i < 8\<close> in \<open>simp add: and_exp_eq_0_iff_not_bit\<close>)
      qed
    next
      case False
      show ?thesis
        by (subst isLayerCollisionEnabled_loop.simps, subst step)
           (use False \<open>i < 8\<close> "1.IH"(2) in \<open>simp add: and_exp_eq_0_iff_not_bit\<close>)
    qed
  qed
qed

lemma setLayerCollisionEnabled_loop_length:
  "length (setLayerCollisionEnabled_loop m l1 l2 enabled i) = length m"
proof (induction m l1 l2 enabled i rule: setLayerCollisionEnabled_loop.induct)
  case (1 m l1 l2 enabled i)
  show ?case
  proof (cases "i < 8")
    case True
    define m1 where "m1 = (if l1 AND push_bit i 1 \<noteq> 0
                           then (if enabled then m[i := m ! i OR l2] else m[i := m ! i AND NOT l2])
                           else m)"
    define m2 where "m2 = (if l2 AND push_bit i 1 \<noteq> 0
                           then (if enabled then m1[i := m1 ! i OR l1] else m1[i := m1 ! i AND NOT l1])
                           else m1)"
    have unfold: "setLayerCollisionEnabled_loop m l1 l2 enabled i =
                  setLayerCollisionEnabled_loop m2 l1 l2 enabled (i + 1)"
      by (subst setLayerCollisionEnabled_loop.simps) (use True in \<open>simp add: Let_def m1_def m2_def\<close>)
    have "length (setLayerCollisionEnabled_loop m2 l1 l2 enabled (i + 1)) = length m2"
      using "1.IH" [OF True m1_def m2_def] .
    then show ?thesis
      unfolding unfold by (simp add: m1_def m2_def)
  next
    case False
    show ?thesis by (subst setLayerCollisionEnabled_loop.simps) (use False in simp)
  qed
qed

lemma setLayerCollisionEnabled_loop_disable_nth:
  "k < length m \<Longrightarrow> \<not> enabled \<Longrightarrow>
   setLayerCollisionEnabled_loop m l1 l2 enabled i ! k =
     (if i \<le> k \<and> k < 8 then row_after_disable l1 l2 k (m ! k) else m ! k)"
proof (induction m l1 l2 enabled i rule: setLayerCollisionEnabled_loop.induct)
  case (1 m l1 l2 enabled i)
  show ?case
  proof (cases "i < 8")
    case False
    show ?thesis by (subst setLayerCollisionEnabled_loop.simps) (use False in auto)
  next
    case True
    define m1 where "m1 = (if l1 AND push_bit i 1 \<noteq> 0
                           then (if enabled then m[i := m ! i OR l2] else m[i := m ! i AND NOT l2])
                           else m)"
    define m2 where "m2 = (if l2 AND push_bit i 1 \<noteq> 0
                           then (if enabled then m1[i := m1 ! i OR l1] else m1[i := m1 ! i AND NOT l1])
                           else m1)"
    have unfold: "setLayerCollisionEnabled_loop m l1 l2 enabled i =
                  setLayerCollisionEnabled_loop m2 l1 l2 enabled (i + 1)"
      by (subst setLayerCollisionEnabled_loop.simps) (use True in \<open>simp add: Let_def m1_def m2_def\<close>)
    have len: "length m2 = length m" by (simp add: m1_def m2_def)
    have IH: "setLayerCollisionEnabled_loop m2 l1 l2 enabled (i + 1) ! k =
          (if i + 1 \<le> k \<and> k < 8 then row_after_disable l1 l2 k (m2 ! k) else m2 ! k)"
      using "1.IH" [OF True m1_def m2_def] "1.prems" len by simp
    have other: "k \<noteq> i \<Longrightarrow> m2 ! k = m ! k" by (simp add: m1_def m2_def)
    have here: "m2 ! i = row_after_disable l1 l2 i (m ! i)" if "k = i"
      using "1.prems" that by (simp add: m1_def m2_def row_after_disable_def and_exp_eq_0_iff_not_bit Let_def)
    show ?thesis
    proof (cases "k = i")
      case True
      with \<open>i < 8\<close> here show ?thesis unfolding unfold IH by simp
    next
      case False
      then have "(i \<le> k \<and> k < 8) = (i + 1 \<le> k \<and> k < 8)" by arith
      with False other show ?thesis unfolding unfold IH by simp
    qed
  qed
qed

lemma low_bits_iff: "((l::32 word) AND 0xFF \<noteq> 0) \<longleftrightarrow> (\<exists>k<8. bit l k)"
proof -
  have m: "(0xFF::32 word) = mask 8" by (simp add: mask_eq_exp_minus_1)
  have "(l AND mask 8 = 0) \<longleftrightarrow> (\<forall>k<8. \<not> bit l k)"
  proof
    assume z: "l AND mask 8 = 0"
    show "\<forall>k<8. \<not> bit l k"
    proof (intro allI impI)
      fix k :: nat
      assume "k < 8"
      have "\<not> bit (l AND mask 8) k" unfolding z by simp
      with \<open>k < 8\<close> show "\<not> bit l k" by (simp add: bit_simps)
    qed
  next
    assume "\<forall>k<8. \<not> bit l k"
    then show "l AND mask 8 = 0" by (auto simp: bit_eq_iff bit_simps)
  qed
  then show ?thesis unfolding m by blast
qed

lemma row_after_disable_l1: "bit l1 k \<Longrightarrow> row_after_disable l1 l2 k r AND l2 = 0"
  by (auto simp: row_after_disable_def Let_def bit_eq_iff bit_simps)

lemma row_after_disable_l2: "bit l2 k \<Longrightarrow> row_after_disable l1 l2 k r AND l1 = 0"
  by (auto simp: row_after_disable_def Let_def bit_eq_iff bit_simps)

lemma isLayerCollisionEnabled_after_disable:
  assumes "length (layerMatrix w) = 8"
  shows "isLayerCollisionEnabled (setLayerCollisionEnabled w L1 L2 False) L1 L2 \<longleftrightarrow> \<not> (\<exists>k<8. bit L1 k)"
    and "isLayerCollisionEnabled (setLayerCollisionEnabled w L1 L2 False) L2 L1 \<longleftrightarrow> \<not> (\<exists>k<8. bit L2 k)"
  using assms
  by (auto simp: isLayerCollisionEnabled_def setLayerCollisionEnabled_def
      isLayerCollisionEnabled_loop_iff setLayerCollisionEnabled_loop_disable_nth
      row_after_disable_l1 row_after_disable_l2)

text \<open>
  C7 (amended). After \<^verbatim>\<open>setLayerCollisionEnabled(L1, L2, false)\<close> on any matrix of
  eight rows, \<^verbatim>\<open>isLayerCollisionEnabled(L1, L2)\<close> returns false exactly when \<open>L1\<close> has
  a bit among the indices 0 to 7, and \<^verbatim>\<open>isLayerCollisionEnabled(L2, L1)\<close> returns false
  exactly when \<open>L2\<close> has one. So both directions are disabled whenever both layers
  carry one of the eight layer bits; for a first argument without any of them the
  query still answers true.
\<close>

theorem setLayerCollisionEnabled_false_symmetric:
  assumes "length (layerMatrix w) = 8"
  shows "(isLayerCollisionEnabled (setLayerCollisionEnabled w L1 L2 False) L1 L2 \<longleftrightarrow> L1 AND 0xFF = 0)
       \<and> (isLayerCollisionEnabled (setLayerCollisionEnabled w L1 L2 False) L2 L1 \<longleftrightarrow> L2 AND 0xFF = 0)"
  using isLayerCollisionEnabled_after_disable [OF assms, of L1 L2] low_bits_iff [of L1] low_bits_iff [of L2]
  by blast

text \<open>The layers Player and Enemy on a new world: both directions are disabled.\<close>

theorem setLayerCollisionEnabled_false_symmetric_witness:
  "length (layerMatrix (CollisionWorld_new :: unit CollisionWorld)) = 8
   \<and> \<not> isLayerCollisionEnabled
        (setLayerCollisionEnabled (CollisionWorld_new :: unit CollisionWorld) Layer_Player Layer_Enemy False)
        Layer_Player Layer_Enemy
   \<and> \<not> isLayerCollisionEnabled
        (setLayerCollisionEnabled (CollisionWorld_new :: unit CollisionWorld) Layer_Player Layer_Enemy False)
        Layer_Enemy Layer_Player"
  using setLayerCollisionEnabled_false_symmetric
          [of "CollisionWorld_new :: unit CollisionWorld" Layer_Player Layer_Enemy]
  by (simp add: CollisionWorld_new_def Layer_Player_def Layer_Enemy_def)

text \<open>
  C7 as stated fails for \<open>L1 = None\<close>: after disabling \<open>(None, Player)\<close> on a new
  world the query \<open>(None, Player)\<close> still returns true.
\<close>

theorem setLayerCollisionEnabled_None_counterexample:
  "isLayerCollisionEnabled
     (setLayerCollisionEnabled (CollisionWorld_new :: unit CollisionWorld) Layer_None Layer_Player False)
     Layer_None Layer_Player"
  by (simp add: isLayerCollisionEnabled_def isLayerCollisionEnabled_loop_iff Layer_None_def)

text \<open>
  C10. For every matrix and every \<open>L2\<close>, \<^verbatim>\<open>isLayerCollisionEnabled(L1, L2)\<close> returns
  true whenever \<open>L1\<close> has no bit among the indices 0 to 7, in particular for
  \<open>L1 = None\<close>, whatever \<^verbatim>\<open>setLayerCollisionEnabled\<close> calls came before.
\<close>

theorem isLayerCollisionEnabled_vacuous:
  "(L1 AND 0xFF = 0 \<longrightarrow> isLayerCollisionEnabled w L1 L2)
   \<and> isLayerCollisionEnabled w Layer_None L2"
proof -
  have "isLayerCollisionEnabled w L L2" if "L AND 0xFF = 0" for L
    using that low_bits_iff [of L]
    by (auto simp: isLayerCollisionEnabled_def isLayerCollisionEnabled_loop_iff)
  then show ?thesis by (simp add: Layer_None_def)
qed

text \<open>A layer value with only bit 8 set, queried right after it was disabled.\<close>

theorem isLayerCollisionEnabled_vacuous_witness:
  "(0x100 :: 32 word) AND 0xFF = 0
   \<and> isLayerCollisionEnabled
        (setLayerCollisionEnabled (CollisionWorld_new :: unit CollisionWorld) 0x100 Layer_Player False)
        0x100 Layer_Player"
  using isLayerCollisionEnabled_vacuous
     [of "0x100" "setLayerCollisionEnabled (CollisionWorld_new :: unit CollisionWorld) 0x100 Layer_Player False" Layer_Player]
  by simp

section \<open>Spatial queries\<close>

lemma queryAABB_loop_eq:
  "queryAABB_loop cs bounds layerFilter results =
     results @ map entityId (filter (\<lambda>e. intersects bounds (ColliderEntry_getBounds e)) cs)"
  by (induction cs arbitrary: results) (simp_all add: Let_def)

lemma queryPoint_loop_eq:
  "queryPoint_loop cs px py layerFilter results =
     results @ map entityId
       (filter (\<lambda>e. contains (ColliderEntry_getBounds e) px py
                    \<and> hasLayer layerFilter (getLayer (collider e))) cs)"
  by (induction cs arbitrary: results) (simp_all add: Let_def)

text \<open>
  C8. For every world, rectangle \<open>B\<close> and layer filter \<open>F\<close>, \<^verbatim>\<open>queryAABB(B, F)\<close>
  returns the ids, in the order of the entry vector, of the entries whose world AABB
  intersects \<open>B\<close>; this is the result of \<^verbatim>\<open>queryAABB(B, All)\<close> and of the
  one-argument overload, the filter never being applied.
\<close>

theorem queryAABB_filter_inert:
  "queryAABB_filtered w B F =
     map entityId (filter (\<lambda>e. intersects B (ColliderEntry_getBounds e)) (colliders w))
   \<and> queryAABB_filtered w B F = queryAABB_filtered w B Layer_All
   \<and> queryAABB w B = queryAABB_filtered w B Layer_All"
  by (simp add: queryAABB_filtered_def queryAABB_def queryAABB_loop_eq)

lemma hasLayer_All: "hasLayer Layer_All l \<longleftrightarrow> l \<noteq> 0"
proof -
  have e: "(0xFFFFFFFF :: 32 word) = - 1" by simp
  show ?thesis unfolding hasLayer_def Layer_All_def Layer_None_def e by simp
qed

text \<open>
  C9. For every world, point and layer filter \<open>F\<close>, \<^verbatim>\<open>queryPoint(x, y, F)\<close> returns
  the ids, in the order of the entry vector, of the entries whose world AABB contains
  the point under the inclusive comparisons \<open>px \<ge> left\<close>, \<open>px \<le> right\<close>,
  \<open>py \<ge> top\<close>, \<open>py \<le> bottom\<close> and whose layer shares a bit with \<open>F\<close>. The
  two-argument overload is the case \<open>F = All\<close>, for which the layer test only asks
  that the entry's layer is not zero; on a box \<open>(0,0,10,10)\<close> of the default layer it
  reports the corner point \<open>(10,10)\<close> and the edge point \<open>(10,5)\<close>.
\<close>

theorem queryPoint_inclusive_filtered:
  "queryPoint_filtered w px py F =
     map entityId
       (filter (\<lambda>e. px \<ge> left (ColliderEntry_getBounds e) \<and> px \<le> right (ColliderEntry_getBounds e)
                    \<and> py \<ge> top (ColliderEntry_getBounds e) \<and> py \<le> bottom (ColliderEntry_getBounds e)
                    \<and> F AND layer (col_collisionMask (collider e)) \<noteq> 0)
          (colliders w))
   \<and> queryPoint w px py = queryPoint_filtered w px py Layer_All
   \<and> queryPoint w px py =
     map entityId
       (filter (\<lambda>e. contains (ColliderEntry_getBounds e) px py
                    \<and> layer (col_collisionMask (collider e)) \<noteq> 0)
          (colliders w))
   \<and> queryPoint (addCollider (CollisionWorld_new :: unit CollisionWorld) 7 0 0
                    (ColliderComponent_sized 10 10 Layer_Default Layer_All)) 10 10 = [7]
   \<and> queryPoint (addCollider (CollisionWorld_new :: unit CollisionWorld) 7 0 0
                    (ColliderComponent_sized 10 10 Layer_Default Layer_All)) 10 5 = [7]"
  apply (intro conjI)
  subgoal by (simp add: queryPoint_filtered_def queryPoint_loop_eq contains_def hasLayer_def getLayer_def Layer_None_def)
  subgoal by (simp add: queryPoint_def)
  subgoal by (simp add: queryPoint_def queryPoint_filtered_def queryPoint_loop_eq hasLayer_All getLayer_def)
  subgoal by (simp add: queryPoint_def queryPoint_filtered_def addCollider_def addCollider_scaled_def
        CollisionWorld_new_def ColliderComponent_sized_def mkColliderEntry_def Let_def
        ColliderEntry_getBounds_def getBounds_def mkAABB_def contains_def left_def right_def top_def
        bottom_def hasLayer_def getLayer_def Layer_All_def Layer_Default_def Layer_None_def)
  subgoal by (simp add: queryPoint_def queryPoint_filtered_def addCollider_def addCollider_scaled_def
        CollisionWorld_new_def ColliderComponent_sized_def mkColliderEntry_def Let_def
        ColliderEntry_getBounds_def getBounds_def mkAABB_def contains_def left_def right_def top_def
        bottom_def hasLayer_def getLayer_def Layer_All_def Layer_Default_def Layer_None_def)
  done

section \<open>Registration and the index map\<close>

lemma wf_world_iff:
  "wf_world w \<longleftrightarrow> index_agrees (entityIndexMap w) (colliders w) \<and> length (layerMatrix w) = 8"
proof -
  let ?m = "entityIndexMap w" and ?cs = "colliders w"
  have "index_agrees ?m ?cs"
    if d: "dom ?m = entityId ` set ?cs"
      and a: "\<forall>i < length ?cs. ?m (entityId (?cs ! i)) = Some i"
    unfolding index_agrees_def
  proof (intro allI iffI)
    fix eid i
    assume s: "?m eid = Some i"
    then have "eid \<in> entityId ` set ?cs" using d by blast
    then obtain j where j: "j < length ?cs" "entityId (?cs ! j) = eid"
      by (auto simp: in_set_conv_nth)
    with a have "?m eid = Some j" by blast
    with s j show "i < length ?cs \<and> entityId (?cs ! i) = eid" by simp
  next
    fix eid i
    assume "i < length ?cs \<and> entityId (?cs ! i) = eid"
    with a show "?m eid = Some i" by blast
  qed
  moreover have "dom ?m = entityId ` set ?cs" if "index_agrees ?m ?cs"
  proof (rule set_eqI)
    fix eid
    have "eid \<in> dom ?m \<longleftrightarrow> (\<exists>i. ?m eid = Some i)" by blast
    also have "\<dots> \<longleftrightarrow> (\<exists>i < length ?cs. entityId (?cs ! i) = eid)"
      using that unfolding index_agrees_def by blast
    also have "\<dots> \<longleftrightarrow> eid \<in> entityId ` set ?cs"
    proof
      assume "\<exists>i < length ?cs. entityId (?cs ! i) = eid"
      then obtain i where "i < length ?cs" "entityId (?cs ! i) = eid" by blast
      then have "?cs ! i \<in> set ?cs" "eid = entityId (?cs ! i)" by simp_all
      then show "eid \<in> entityId ` set ?cs" by blast
    next
      assume "eid \<in> entityId ` set ?cs"
      then obtain e where "e \<in> set ?cs" "eid = entityId e" by blast
      then obtain i where "i < length ?cs" "?cs ! i = e" by (auto simp: in_set_conv_nth)
      with \<open>eid = entityId e\<close> show "\<exists>i < length ?cs. entityId (?cs ! i) = eid" by blast
    qed
    finally show "eid \<in> dom ?m \<longleftrightarrow> eid \<in> entityId ` set ?cs" .
  qed
  moreover have "\<forall>i < length ?cs. ?m (entityId (?cs ! i)) = Some i" if "index_agrees ?m ?cs"
    using that unfolding index_agrees_def by blast
  ultimately show ?thesis unfolding wf_world_def by blast
qed

lemma index_agrees_distinct: "index_agrees m cs \<Longrightarrow> distinct (map entityId cs)"
  unfolding distinct_conv_nth
proof (intro allI impI notI)
  fix i j
  assume a: "index_agrees m cs" and i: "i < length (map entityId cs)"
    and j: "j < length (map entityId cs)" and ne: "i \<noteq> j"
    and eq: "map entityId cs ! i = map entityId cs ! j"
  from a i have "m (entityId (cs ! i)) = Some i" unfolding index_agrees_def by simp
  moreover from a j have "m (entityId (cs ! j)) = Some j" unfolding index_agrees_def by simp
  moreover from eq i j have "entityId (cs ! i) = entityId (cs ! j)" by simp
  ultimately show False using ne by simp
qed

lemma index_agrees_empty: "index_agrees Map.empty []"
  by (simp add: index_agrees_def)

lemma index_agrees_append:
  assumes "index_agrees m cs" "m eid = None" "entityId e = eid"
  shows "index_agrees (m(eid \<mapsto> length cs)) (cs @ [e])"
  unfolding index_agrees_def
proof (intro allI)
  fix x i
  have fresh: "entityId (cs ! k) \<noteq> eid" if "k < length cs" for k
  proof
    assume "entityId (cs ! k) = eid"
    with that assms(1) have "m eid = Some k" unfolding index_agrees_def by blast
    with assms(2) show False by simp
  qed
  have old: "(m x = Some i) = (i < length cs \<and> entityId (cs ! i) = x)"
    using assms(1) unfolding index_agrees_def by blast
  show "((m(eid \<mapsto> length cs)) x = Some i) = (i < length (cs @ [e]) \<and> entityId ((cs @ [e]) ! i) = x)"
  proof (cases "i < length cs")
    case True
    with fresh [OF True] old show ?thesis
      by (cases "x = eid") (auto simp: nth_append)
  next
    case False
    with old assms(3) show ?thesis
      by (cases "x = eid") (auto simp: nth_append)
  qed
qed

lemma index_agrees_update:
  assumes "index_agrees m cs" "i < length cs" "entityId e = entityId (cs ! i)"
  shows "index_agrees m (cs[i := e])"
proof -
  have "entityId (cs[i := e] ! k) = entityId (cs ! k)" if "k < length cs" for k
    using that assms(2,3) by (cases "k = i") simp_all
  with assms(1) show ?thesis unfolding index_agrees_def by auto
qed

lemma removeCollider_None:
  "entityIndexMap w eid = None \<Longrightarrow> removeCollider w eid = w"
  by (simp add: removeCollider_def)

lemma removeCollider_Some_colliders:
  "entityIndexMap w eid = Some index \<Longrightarrow>
   colliders (removeCollider w eid) = swap_remove (colliders w) index"
  by (simp add: removeCollider_def swap_remove_def Let_def)

lemma removeCollider_Some_map:
  "entityIndexMap w eid = Some index \<Longrightarrow>
   entityIndexMap (removeCollider w eid) =
     (if index < length (colliders w) - 1
      then ((entityIndexMap w)(entityId (last (colliders w)) \<mapsto> index))(eid := None)
      else (entityIndexMap w)(eid := None))"
  by (simp add: removeCollider_def Let_def)

lemma removeCollider_others:
  "layerMatrix (removeCollider w eid) = layerMatrix w"
  "onCollision (removeCollider w eid) = onCollision w"
  "onTriggerEnter (removeCollider w eid) = onTriggerEnter w"
  "onTriggerExit (removeCollider w eid) = onTriggerExit w"
  by (simp_all add: removeCollider_def Let_def split: option.splits)

lemma index_agrees_remove_last:
  assumes a: "index_agrees m cs" and s: "m eid = Some index" and l: "\<not> index < length cs - 1"
  shows "index_agrees (m(eid := None)) (butlast cs)"
proof -
  from a s have i: "index < length cs" "entityId (cs ! index) = eid"
    unfolding index_agrees_def by blast+
  with l have idx: "index = length cs - 1" by arith
  show ?thesis
    unfolding index_agrees_def
  proof (intro allI)
    fix x k
    show "((m(eid := None)) x = Some k) = (k < length (butlast cs) \<and> entityId (butlast cs ! k) = x)"
    proof (cases "k < length cs - 1")
      case True
      then have nk: "butlast cs ! k = cs ! k" "k < length cs" "k \<noteq> index"
        using idx by (simp_all add: nth_butlast)
      have "m (entityId (cs ! k)) = Some k"
        using a nk(2) unfolding index_agrees_def by blast
      with s nk(3) have "entityId (cs ! k) \<noteq> eid" by auto
      moreover have "(m x = Some k) = (entityId (cs ! k) = x)"
        using a nk(2) unfolding index_agrees_def by blast
      ultimately show ?thesis using True nk(1) by auto
    next
      case False
      have "x = eid" if "m x = Some k"
      proof -
        from that a have "k < length cs" "entityId (cs ! k) = x"
          unfolding index_agrees_def by blast+
        with False idx have "k = index" by arith
        with i \<open>entityId (cs ! k) = x\<close> show ?thesis by simp
      qed
      with False show ?thesis by auto
    qed
  qed
qed

lemma index_agrees_remove_swap:
  assumes a: "index_agrees m cs" and s: "m eid = Some index" and l: "index < length cs - 1"
  shows "index_agrees ((m(entityId (last cs) \<mapsto> index))(eid := None)) (butlast (cs[index := last cs]))"
proof -
  let ?n = "length cs"
  let ?lid = "entityId (last cs)"
  from a s have i: "index < ?n" "entityId (cs ! index) = eid"
    unfolding index_agrees_def by blast+
  have nonempty: "cs \<noteq> []" using i by auto
  have lst: "last cs = cs ! (?n - 1)"
    using nonempty by (simp add: last_conv_nth)
  have "?n - 1 < ?n" using nonempty by simp
  then have mlast: "m ?lid = Some (?n - 1)"
    using a lst unfolding index_agrees_def by simp
  have ne: "?lid \<noteq> eid" using mlast s l by auto
  have uniq: "m x = Some k \<longleftrightarrow> k < ?n \<and> entityId (cs ! k) = x" for x k
    using a unfolding index_agrees_def by blast
  show ?thesis
    unfolding index_agrees_def
  proof (intro allI)
    fix x k
    let ?cs' = "butlast (cs[index := last cs])"
    have len: "length ?cs' = ?n - 1" by simp
    have nth: "k < ?n - 1 \<Longrightarrow> ?cs' ! k = (if k = index then last cs else cs ! k)"
      by (simp add: nth_butlast)
    show "(((m(?lid \<mapsto> index))(eid := None)) x = Some k) = (k < length ?cs' \<and> entityId (?cs' ! k) = x)"
    proof (cases "k < ?n - 1")
      case False
      then have "\<not> (k < length ?cs' \<and> entityId (?cs' ! k) = x)" by simp
      moreover have "((m(?lid \<mapsto> index))(eid := None)) x \<noteq> Some k"
      proof (cases "x = eid")
        case True then show ?thesis by simp
      next
        case xe: False
        show ?thesis
        proof (cases "x = ?lid")
          case True
          with xe False l show ?thesis by simp
        next
          case xl: False
          have "m x \<noteq> Some k"
          proof
            assume "m x = Some k"
            then have "k < ?n" "entityId (cs ! k) = x" using uniq by blast+
            with False have "k = ?n - 1" by arith
            with \<open>entityId (cs ! k) = x\<close> lst xl show False by simp
          qed
          with xe xl show ?thesis by simp
        qed
      qed
      ultimately show ?thesis by blast
    next
      case True
      note kn = True
      have lenk: "k < length ?cs'" using kn len by simp
      show ?thesis
      proof (cases "k = index")
        case True
        have e: "entityId (?cs' ! k) = ?lid" using nth [OF kn] True by simp
        have other: "m x \<noteq> Some index" if "x \<noteq> eid"
        proof
          assume "m x = Some index"
          then have "entityId (cs ! index) = x" using uniq by blast
          with i that show False by simp
        qed
        consider "x = eid" | "x \<noteq> eid" "x = ?lid" | "x \<noteq> eid" "x \<noteq> ?lid" by blast
        then show ?thesis
        proof cases
          case 1
          with ne e lenk show ?thesis by simp
        next
          case 2
          with e lenk True show ?thesis by simp
        next
          case 3
          with e lenk True other [OF 3(1)] show ?thesis by simp
        qed
      next
        case False
        have e: "entityId (?cs' ! k) = entityId (cs ! k)" using nth [OF kn] False by simp
        have kn': "k < ?n" using kn by arith
        have mk: "m (entityId (cs ! k)) = Some k" using uniq [of "entityId (cs ! k)" k] kn' by simp
        have a1: "entityId (cs ! k) \<noteq> eid"
          using mk s False by auto
        have a2: "entityId (cs ! k) \<noteq> ?lid"
          using mk mlast kn by auto
        have u: "m x = Some k \<longleftrightarrow> entityId (cs ! k) = x" using uniq [of x k] kn' by simp
        consider "x = eid" | "x \<noteq> eid" "x = ?lid" | "x \<noteq> eid" "x \<noteq> ?lid" by blast
        then show ?thesis
        proof cases
          case 1
          with a1 e lenk show ?thesis by simp
        next
          case 2
          with a2 e lenk False show ?thesis by auto
        next
          case 3
          with e lenk u show ?thesis by simp
        qed
      qed
    qed
  qed
qed

lemma removeCollider_index_agrees:
  assumes "index_agrees (entityIndexMap w) (colliders w)"
  shows "index_agrees (entityIndexMap (removeCollider w eid)) (colliders (removeCollider w eid))"
proof (cases "entityIndexMap w eid")
  case None
  with assms show ?thesis by (simp add: removeCollider_None)
next
  case (Some index)
  show ?thesis
  proof (cases "index < length (colliders w) - 1")
    case True
    with index_agrees_remove_swap [OF assms Some True] Some show ?thesis
      by (simp add: removeCollider_Some_colliders removeCollider_Some_map swap_remove_def)
  next
    case False
    with index_agrees_remove_last [OF assms Some False] Some show ?thesis
      by (simp add: removeCollider_Some_colliders removeCollider_Some_map swap_remove_def)
  qed
qed

lemma wf_world_new: "wf_world CollisionWorld_new"
  by (simp add: wf_world_iff CollisionWorld_new_def index_agrees_empty)

lemma removeCollider_wf: "wf_world w \<Longrightarrow> wf_world (removeCollider w eid)"
  by (simp add: wf_world_iff removeCollider_index_agrees removeCollider_others)

lemma removeCollider_unregisters: "entityIndexMap (removeCollider w eid) eid = None"
  by (cases "entityIndexMap w eid") (simp_all add: removeCollider_None removeCollider_Some_map)

lemma wf_index_in_range:
  "wf_world w \<Longrightarrow> entityIndexMap w eid = Some i \<Longrightarrow>
   i < length (colliders w) \<and> entityId (colliders w ! i) = eid"
  unfolding wf_world_iff index_agrees_def by blast

lemma removeCollider_count:
  assumes "wf_world w"
  shows "getColliderCount (removeCollider w eid) =
           (if hasCollider w eid then getColliderCount w - 1 else getColliderCount w)"
proof (cases "entityIndexMap w eid")
  case None
  then show ?thesis by (simp add: removeCollider_None hasCollider_def)
next
  case (Some index)
  then show ?thesis
    by (simp add: removeCollider_Some_colliders swap_remove_def hasCollider_def getColliderCount_def)
qed

lemma addCollider_scaled_unfold:
  "addCollider_scaled w eid px py sx sy col =
     (let w1 = removeCollider w eid
      in w1\<lparr>colliders := colliders w1 @ [mkColliderEntry eid px py sx sy col],
            entityIndexMap := (entityIndexMap w1)(eid \<mapsto> length (colliders w1))\<rparr>)"
  by (cases "entityIndexMap w eid") (simp_all add: addCollider_scaled_def removeCollider_None Let_def)

lemma addCollider_scaled_wf:
  assumes "wf_world w"
  shows "wf_world (addCollider_scaled w eid px py sx sy col)"
proof -
  let ?w1 = "removeCollider w eid"
  have w1: "wf_world ?w1" using assms by (rule removeCollider_wf)
  have "index_agrees ((entityIndexMap ?w1)(eid \<mapsto> length (colliders ?w1)))
          (colliders ?w1 @ [mkColliderEntry eid px py sx sy col])"
    using w1 removeCollider_unregisters [of w eid]
    by (intro index_agrees_append) (simp_all add: wf_world_iff mkColliderEntry_def)
  with w1 show ?thesis
    by (simp add: addCollider_scaled_unfold wf_world_iff Let_def)
qed

lemma addCollider_scaled_count:
  assumes "wf_world w"
  shows "getColliderCount (addCollider_scaled w eid px py sx sy col) =
           (if hasCollider w eid then getColliderCount w else getColliderCount w + 1)"
proof -
  have "hasCollider w eid \<Longrightarrow> 0 < getColliderCount w"
    using wf_index_in_range [OF assms, of eid]
    by (auto simp: hasCollider_def getColliderCount_def)
  then show ?thesis
    using removeCollider_count [OF assms, of eid]
    by (auto simp: addCollider_scaled_unfold Let_def getColliderCount_def)
qed

lemma addCollider_scaled_registers:
  "entityIndexMap (addCollider_scaled w eid px py sx sy col) eid
     = Some (length (colliders (removeCollider w eid)))"
  by (simp add: addCollider_scaled_unfold Let_def)

lemma updatePosition_wf: "wf_world w \<Longrightarrow> wf_world (updatePosition w eid px py)"
proof (cases "entityIndexMap w eid")
  case None
  assume "wf_world w"
  with None show ?thesis by (simp add: updatePosition_def)
next
  case (Some i)
  assume wf: "wf_world w"
  from wf_index_in_range [OF wf Some] wf show ?thesis
    using Some by (simp add: updatePosition_def wf_world_iff index_agrees_update)
qed

lemma updateScale_wf: "wf_world w \<Longrightarrow> wf_world (updateScale w eid sx sy)"
proof (cases "entityIndexMap w eid")
  case None
  assume "wf_world w"
  with None show ?thesis by (simp add: updateScale_def)
next
  case (Some i)
  assume wf: "wf_world w"
  from wf_index_in_range [OF wf Some] wf show ?thesis
    using Some by (simp add: updateScale_def wf_world_iff index_agrees_update)
qed

lemma clear_wf: "wf_world w \<Longrightarrow> wf_world (clear w)"
  by (simp add: wf_world_iff clear_def index_agrees_empty)

lemma removeCollider_keeps_others:
  assumes wf: "wf_world w" and ne: "other \<noteq> eid"
  shows "getCollider (removeCollider w eid) other = getCollider w other"
proof (cases "entityIndexMap w eid")
  case None
  then show ?thesis by (simp add: removeCollider_None)
next
  case (Some index)
  let ?cs = "colliders w" and ?m = "entityIndexMap w"
  let ?n = "length ?cs"
  from wf_index_in_range [OF wf Some] have i: "index < ?n" "entityId (?cs ! index) = eid" by blast+
  have nonempty: "?cs \<noteq> []" using i by auto
  have lst: "last ?cs = ?cs ! (?n - 1)" using nonempty by (simp add: last_conv_nth)
  have ag: "index_agrees ?m ?cs" using wf by (simp add: wf_world_iff)
  have "?n - 1 < ?n" using nonempty by simp
  then have mlast: "?m (entityId (last ?cs)) = Some (?n - 1)"
    using ag lst unfolding index_agrees_def by simp
  show ?thesis
  proof (cases "?m other")
    case None
    have "other \<noteq> entityId (last ?cs)" using None mlast by auto
    with None ne Some show ?thesis
      by (simp add: getCollider_def removeCollider_Some_map)
  next
    case k: (Some k)
    from wf_index_in_range [OF wf k] have kr: "k < ?n" "entityId (?cs ! k) = other" by blast+
    have kne: "k \<noteq> index" using kr i ne by auto
    show ?thesis
    proof (cases "index < ?n - 1")
      case False
      with i have "index = ?n - 1" by arith
      with kne kr have "k < ?n - 1" by arith
      then have "butlast ?cs ! k = ?cs ! k" by (simp add: nth_butlast)
      with False k ne Some show ?thesis
        by (simp add: getCollider_def removeCollider_Some_map removeCollider_Some_colliders swap_remove_def)
    next
      case True
      show ?thesis
      proof (cases "other = entityId (last ?cs)")
        case l: True
        with k mlast have "k = ?n - 1" by simp
        moreover have "butlast (?cs[index := last ?cs]) ! index = last ?cs"
          using True i by (simp add: nth_butlast)
        ultimately show ?thesis
          using True k ne Some l lst
          by (simp add: getCollider_def removeCollider_Some_map removeCollider_Some_colliders swap_remove_def)
      next
        case l: False
        have "k \<noteq> ?n - 1" using l kr lst by auto
        with kr have "k < ?n - 1" by arith
        then have "butlast (?cs[index := last ?cs]) ! k = ?cs ! k"
          using kne by (simp add: nth_butlast)
        then show ?thesis
          using True k ne Some l
          by (simp add: getCollider_def removeCollider_Some_map removeCollider_Some_colliders swap_remove_def)
      qed
    qed
  qed
qed

lemma getCollider_own:
  assumes "wf_world w" "getCollider w eid = Some e"
  shows "entityId e = eid \<and> e \<in> set (colliders w)"
proof -
  from assms(2) obtain i where i: "entityIndexMap w eid = Some i" "e = colliders w ! i"
    by (auto simp: getCollider_def split: option.splits)
  from wf_index_in_range [OF assms(1) i(1)] i(2) show ?thesis by simp
qed

lemma world_one_wf: "wf_world world_one"
  unfolding world_one_def addCollider_def by (intro addCollider_scaled_wf wf_world_new)

lemma world_three_wf: "wf_world world_three"
  unfolding world_three_def addCollider_def by (intro addCollider_scaled_wf wf_world_new)

lemma world_three_eval:
  "colliders world_three =
     [mkColliderEntry 1 0 0 1 1 box10, mkColliderEntry 2 5 5 1 1 box10,
      mkColliderEntry 3 100 100 1 1 box10]"
  "entityIndexMap world_three = [1 \<mapsto> 0, 2 \<mapsto> 1, 3 \<mapsto> 2]"
  by (simp_all add: world_three_def addCollider_def addCollider_scaled_def CollisionWorld_new_def Let_def
      numeral_2_eq_2)

text \<open>
  C2 (amended). In a well-formed world the index map sends an id to an index exactly
  when that index is in range and holds the entry with that id, and the registered ids
  are pairwise distinct; \<^verbatim>\<open>addCollider\<close> (both overloads), \<^verbatim>\<open>removeCollider\<close>,
  \<^verbatim>\<open>updatePosition\<close>, \<^verbatim>\<open>updateScale\<close> and \<^verbatim>\<open>clear\<close> keep the world well-formed.
  After \<^verbatim>\<open>addCollider(id, ...)\<close> and then \<^verbatim>\<open>removeCollider(id)\<close> the id is not
  registered, and the count is the count before the add if the id was not registered
  then, and one less if it was (the add replaced its entry). Removing a registered id
  overwrites its slot with the last entry unless it is the last and drops the last slot;
  every other id keeps its registration and \<^verbatim>\<open>getCollider\<close> returns the same entry for
  it, which carries that id.
\<close>

theorem index_map_invariant:
  assumes "wf_world w"
  shows "(\<forall>e i. entityIndexMap w e = Some i \<longleftrightarrow> i < length (colliders w) \<and> entityId (colliders w ! i) = e)
       \<and> distinct (map entityId (colliders w))
       \<and> wf_world (addCollider_scaled w eid px py sx sy col)
       \<and> wf_world (addCollider w eid px py col)
       \<and> wf_world (removeCollider w eid)
       \<and> wf_world (updatePosition w eid px py)
       \<and> wf_world (updateScale w eid sx sy)
       \<and> wf_world (clear w)
       \<and> \<not> hasCollider (removeCollider (addCollider_scaled w eid px py sx sy col) eid) eid
       \<and> getColliderCount (removeCollider (addCollider_scaled w eid px py sx sy col) eid) =
           (if hasCollider w eid then getColliderCount w - 1 else getColliderCount w)
       \<and> (\<forall>index. entityIndexMap w eid = Some index \<longrightarrow>
            colliders (removeCollider w eid) =
              (if index < length (colliders w) - 1
               then butlast ((colliders w)[index := last (colliders w)])
               else butlast (colliders w)))
       \<and> (\<forall>other. other \<noteq> eid \<longrightarrow>
            getCollider (removeCollider w eid) other = getCollider w other
            \<and> hasCollider (removeCollider w eid) other = hasCollider w other)
       \<and> (\<forall>other e. getCollider w other = Some e \<longrightarrow> entityId e = other \<and> e \<in> set (colliders w))"
proof -
  have ag: "index_agrees (entityIndexMap w) (colliders w)"
    using assms by (simp add: wf_world_iff)
  have c1: "\<forall>e i. entityIndexMap w e = Some i \<longleftrightarrow> i < length (colliders w) \<and> entityId (colliders w ! i) = e"
    using ag unfolding index_agrees_def by blast
  have c2: "distinct (map entityId (colliders w))"
    using ag by (rule index_agrees_distinct)
  have c3: "wf_world (addCollider_scaled w eid px py sx sy col)"
    using assms by (rule addCollider_scaled_wf)
  have c4: "wf_world (addCollider w eid px py col)"
    unfolding addCollider_def using assms by (rule addCollider_scaled_wf)
  have c5: "wf_world (removeCollider w eid)" using assms by (rule removeCollider_wf)
  have c6: "wf_world (updatePosition w eid px py)" using assms by (rule updatePosition_wf)
  have c7: "wf_world (updateScale w eid sx sy)" using assms by (rule updateScale_wf)
  have c8: "wf_world (clear w)" using assms by (rule clear_wf)
  have c9: "\<not> hasCollider (removeCollider (addCollider_scaled w eid px py sx sy col) eid) eid"
    by (simp add: hasCollider_def removeCollider_unregisters)
  have reg: "hasCollider (addCollider_scaled w eid px py sx sy col) eid"
    by (simp add: hasCollider_def addCollider_scaled_registers)
  have c10: "getColliderCount (removeCollider (addCollider_scaled w eid px py sx sy col) eid) =
           (if hasCollider w eid then getColliderCount w - 1 else getColliderCount w)"
    using removeCollider_count [OF c3, of eid] reg addCollider_scaled_count [OF assms, of eid px py sx sy col]
    by simp
  have c11: "\<forall>index. entityIndexMap w eid = Some index \<longrightarrow>
            colliders (removeCollider w eid) =
              (if index < length (colliders w) - 1
               then butlast ((colliders w)[index := last (colliders w)])
               else butlast (colliders w))"
    by (simp add: removeCollider_Some_colliders swap_remove_def)
  have c12: "\<forall>other. other \<noteq> eid \<longrightarrow>
            getCollider (removeCollider w eid) other = getCollider w other
            \<and> hasCollider (removeCollider w eid) other = hasCollider w other"
  proof (intro allI impI)
    fix other assume ne: "other \<noteq> eid"
    have g: "getCollider (removeCollider w eid) other = getCollider w other"
      using assms ne by (rule removeCollider_keeps_others)
    have "hasCollider w' other \<longleftrightarrow> getCollider w' other \<noteq> None" for w' :: "'a CollisionWorld"
      by (simp add: hasCollider_def getCollider_def split: option.splits)
    with g show "getCollider (removeCollider w eid) other = getCollider w other
            \<and> hasCollider (removeCollider w eid) other = hasCollider w other" by simp
  qed
  have c13: "\<forall>other e. getCollider w other = Some e \<longrightarrow> entityId e = other \<and> e \<in> set (colliders w)"
    using getCollider_own [OF assms] by blast
  show ?thesis
    by (intro conjI) (fact c1 c2 c3 c4 c5 c6 c7 c8 c9 c10 c11 c12 c13)+
qed

text \<open>
  Entities 1, 2, 3; removing 1 moves 3 into the first slot and both 2 and 3 still
  resolve; adding and removing the fresh id 4 leaves three entries.
\<close>

theorem index_map_invariant_witness:
  "wf_world world_three
   \<and> wf_world (removeCollider world_three 1)
   \<and> colliders (removeCollider world_three 1) =
       [mkColliderEntry 3 100 100 1 1 box10, mkColliderEntry 2 5 5 1 1 box10]
   \<and> getCollider (removeCollider world_three 1) 2 = Some (mkColliderEntry 2 5 5 1 1 box10)
   \<and> getCollider (removeCollider world_three 1) 3 = Some (mkColliderEntry 3 100 100 1 1 box10)
   \<and> \<not> hasCollider (removeCollider (addCollider_scaled world_three 4 0 0 1 1 box10) 4) 4
   \<and> getColliderCount (removeCollider (addCollider_scaled world_three 4 0 0 1 1 box10) 4) = 3"
proof -
  note t1 = index_map_invariant [OF world_three_wf, of 1 0 0 1 1 box10]
  note t4 = index_map_invariant [OF world_three_wf, of 4 0 0 1 1 box10]
  have m1: "entityIndexMap world_three 1 = Some 0" by (simp add: world_three_eval)
  have g2: "getCollider world_three 2 = Some (mkColliderEntry 2 5 5 1 1 box10)"
    by (simp add: getCollider_def world_three_eval)
  have g3: "getCollider world_three 3 = Some (mkColliderEntry 3 100 100 1 1 box10)"
    by (simp add: getCollider_def world_three_eval)
  have n4: "\<not> hasCollider world_three 4" by (simp add: hasCollider_def world_three_eval)
  have cnt: "getColliderCount world_three = 3" by (simp add: getColliderCount_def world_three_eval)
  from t1 have a: "wf_world (removeCollider world_three 1)" by blast
  from t1 m1 have "colliders (removeCollider world_three 1) =
      (if 0 < length (colliders world_three) - 1
       then butlast ((colliders world_three)[0 := last (colliders world_three)])
       else butlast (colliders world_three))" by blast
  then have b: "colliders (removeCollider world_three 1) =
       [mkColliderEntry 3 100 100 1 1 box10, mkColliderEntry 2 5 5 1 1 box10]"
    by (simp add: world_three_eval)
  from t1 have "getCollider (removeCollider world_three 1) 2 = getCollider world_three 2"
    by (elim conjE) simp
  with g2 have c: "getCollider (removeCollider world_three 1) 2 = Some (mkColliderEntry 2 5 5 1 1 box10)"
    by simp
  from t1 have "getCollider (removeCollider world_three 1) 3 = getCollider world_three 3"
    by (elim conjE) simp
  with g3 have d: "getCollider (removeCollider world_three 1) 3 = Some (mkColliderEntry 3 100 100 1 1 box10)"
    by simp
  from t4 have e: "\<not> hasCollider (removeCollider (addCollider_scaled world_three 4 0 0 1 1 box10) 4) 4"
    by blast
  from t4 have "getColliderCount (removeCollider (addCollider_scaled world_three 4 0 0 1 1 box10) 4) =
           (if hasCollider world_three 4 then getColliderCount world_three - 1
            else getColliderCount world_three)" by blast
  with n4 cnt have f: "getColliderCount (removeCollider (addCollider_scaled world_three 4 0 0 1 1 box10) 4) = 3"
    by simp
  from world_three_wf a b c d e f show ?thesis by blast
qed

text \<open>
  C2 as stated fails when the id is already registered: with entity 1 registered,
  \<^verbatim>\<open>addCollider(1, ...)\<close> then \<^verbatim>\<open>removeCollider(1)\<close> leaves no entry, not one.
\<close>

theorem add_remove_count_counterexample:
  "wf_world world_one
   \<and> hasCollider world_one 1
   \<and> getColliderCount world_one = 1
   \<and> getColliderCount (removeCollider (addCollider world_one 1 0 0 box10) 1) = 0"
  using world_one_wf
  by (simp add: world_one_def addCollider_def addCollider_scaled_def removeCollider_def
      CollisionWorld_new_def Let_def getColliderCount_def hasCollider_def mkColliderEntry_def)

section \<open>Detection\<close>

lemma in_set_drop_nth:
  "x \<in> set (drop k xs) \<longleftrightarrow> (\<exists>j. k \<le> j \<and> j < length xs \<and> xs ! j = x)"
proof
  assume "x \<in> set (drop k xs)"
  then obtain i where i: "i < length (drop k xs)" "drop k xs ! i = x"
    by (auto simp: in_set_conv_nth)
  then have "k \<le> k + i" "k + i < length xs" "xs ! (k + i) = x" by auto
  then show "\<exists>j. k \<le> j \<and> j < length xs \<and> xs ! j = x" by blast
next
  assume "\<exists>j. k \<le> j \<and> j < length xs \<and> xs ! j = x"
  then obtain j where j: "k \<le> j" "j < length xs" "xs ! j = x" by blast
  then have "j - k < length (drop k xs)" "drop k xs ! (j - k) = x" by auto
  then show "x \<in> set (drop k xs)" by (auto simp: in_set_conv_nth)
qed

lemma detectCollisions_inner_eq:
  "detectCollisions_inner cs a (ColliderEntry_getBounds a) j results =
     results @ map (collisionInfo_of a)
       (filter (\<lambda>b. intersects (ColliderEntry_getBounds a) (ColliderEntry_getBounds b)) (drop j cs))"
proof (induction "length cs - j" arbitrary: j results)
  case 0
  then have "\<not> j < length cs" by simp
  then show ?case
    by (subst detectCollisions_inner.simps) simp
next
  case (Suc n)
  then have j: "j < length cs" and n: "n = length cs - Suc j" by simp_all
  have d: "drop j cs = cs ! j # drop (Suc j) cs"
    using j by (simp add: Cons_nth_drop_Suc)
  show ?case
    by (subst detectCollisions_inner.simps)
       (use j in \<open>simp add: Let_def d Suc.hyps(1) [OF n] collisionInfo_of_def
                     ColliderComponent_isTrigger_def\<close>)
qed

lemma detectCollisions_outer_eq:
  "detectCollisions_outer cs i results =
     results @ concat (map (pairs_from cs) [i..<length cs])"
proof (induction "length cs - i" arbitrary: i results)
  case 0
  then have "\<not> i < length cs" by simp
  then show ?case
    by (subst detectCollisions_outer.simps) simp
next
  case (Suc n)
  then have i: "i < length cs" and n: "n = length cs - Suc i" by simp_all
  have u: "[i..<length cs] = i # [Suc i..<length cs]"
    using i by (simp add: upt_conv_Cons)
  show ?case
    by (subst detectCollisions_outer.simps)
       (use i in \<open>simp add: Let_def u Suc.hyps(1) [OF n] detectCollisions_inner_eq pairs_from_def\<close>)
qed

lemma detectCollisions_eq:
  "detectCollisions w = concat (map (pairs_from (colliders w)) [0..<length (colliders w)])"
  by (simp add: detectCollisions_def detectCollisions_outer_eq)

lemma in_pairs_from:
  "info \<in> set (pairs_from cs k) \<longleftrightarrow>
     (\<exists>j. k < j \<and> j < length cs
          \<and> intersects (ColliderEntry_getBounds (cs ! k)) (ColliderEntry_getBounds (cs ! j))
          \<and> info = collisionInfo_of (cs ! k) (cs ! j))"
proof -
  have "k + 1 \<le> j \<longleftrightarrow> k < j" for j by arith
  then show ?thesis
    unfolding pairs_from_def by (auto simp: in_set_drop_nth)
qed

lemma in_detectCollisions:
  "info \<in> set (detectCollisions w) \<longleftrightarrow>
     (\<exists>i j. i < j \<and> j < length (colliders w)
          \<and> intersects (ColliderEntry_getBounds (colliders w ! i)) (ColliderEntry_getBounds (colliders w ! j))
          \<and> info = collisionInfo_of (colliders w ! i) (colliders w ! j))"
  (is "?L \<longleftrightarrow> ?R")
proof -
  let ?cs = "colliders w"
  have step: "?L \<longleftrightarrow> (\<exists>i < length ?cs. info \<in> set (pairs_from ?cs i))"
    by (simp add: detectCollisions_eq Bex_def)
  show ?thesis
  proof
    assume ?L
    with step obtain i where "i < length ?cs" "info \<in> set (pairs_from ?cs i)" by blast
    then show ?R unfolding in_pairs_from by blast
  next
    assume ?R
    then obtain i j where ij: "i < j" "j < length ?cs"
      "intersects (ColliderEntry_getBounds (?cs ! i)) (ColliderEntry_getBounds (?cs ! j))"
      "info = collisionInfo_of (?cs ! i) (?cs ! j)" by blast
    then have "i < length ?cs" by arith
    moreover have "info \<in> set (pairs_from ?cs i)"
      unfolding in_pairs_from using ij by blast
    ultimately show ?L using step by blast
  qed
qed

lemma detectCollisionsForEntity_loop_eq:
  "detectCollisionsForEntity_loop cs eid tgt (ColliderEntry_getBounds tgt) i results =
     results @ map (collisionInfo_of tgt)
       (filter (\<lambda>other. entityId other \<noteq> eid
                  \<and> intersects (ColliderEntry_getBounds tgt) (ColliderEntry_getBounds other)
                  \<and> canCollideWith (col_collisionMask (collider tgt)) (col_collisionMask (collider other)))
          (drop i cs))"
proof (induction "length cs - i" arbitrary: i results)
  case 0
  then have "\<not> i < length cs" by simp
  then show ?case
    by (subst detectCollisionsForEntity_loop.simps) simp
next
  case (Suc n)
  then have i: "i < length cs" and n: "n = length cs - Suc i" by simp_all
  have d: "drop i cs = cs ! i # drop (Suc i) cs"
    using i by (simp add: Cons_nth_drop_Suc)
  show ?case
    by (subst detectCollisionsForEntity_loop.simps)
       (use i in \<open>simp add: Let_def d Suc.hyps(1) [OF n] collisionInfo_of_def
                     ColliderComponent_isTrigger_def getCollisionMask_def\<close>)
qed

lemma detectCollisionsForEntity_eq:
  "detectCollisionsForEntity w eid =
     (case getCollider w eid of
        None \<Rightarrow> []
      | Some tgt \<Rightarrow>
          map (collisionInfo_of tgt)
            (filter (\<lambda>other. entityId other \<noteq> eid
                       \<and> intersects (ColliderEntry_getBounds tgt) (ColliderEntry_getBounds other)
                       \<and> canCollideWith (col_collisionMask (collider tgt))
                                         (col_collisionMask (collider other)))
               (colliders w)))"
  by (simp add: detectCollisionsForEntity_def getCollider_def Let_def
      detectCollisionsForEntity_loop_eq split: option.splits)

lemma checkCollision_info_eq:
  "checkCollision_info w a b outInfo =
     (case (getCollider w a, getCollider w b) of
        (Some ea, Some eb) \<Rightarrow>
           if intersects (ColliderEntry_getBounds ea) (ColliderEntry_getBounds eb)
              \<and> canCollideWith (col_collisionMask (collider ea)) (col_collisionMask (collider eb))
           then (True, (collisionInfo_of ea eb)\<lparr>entityA := a, entityB := b\<rparr>)
           else (False, outInfo)
      | _ \<Rightarrow> (False, outInfo))"
  by (cases outInfo)
     (simp add: checkCollision_info_def getCollider_def Let_def collisionInfo_of_def
      ColliderComponent_isTrigger_def getCollisionMask_def split: option.splits)

lemma intersects_sym: "intersects A B \<longleftrightarrow> intersects B A"
  by (auto simp: intersects_def)

lemma world_masked_wf: "wf_world world_masked"
  unfolding world_masked_def addCollider_def by (intro addCollider_scaled_wf wf_world_new)

lemma world_masked_eval:
  "colliders world_masked =
     [mkColliderEntry 1 0 0 1 1 player_vs_terrain, mkColliderEntry 2 5 5 1 1 enemy_vs_all]"
  "entityIndexMap world_masked = [1 \<mapsto> 0, 2 \<mapsto> 1]"
  "onCollision world_masked = None"
  "onTriggerEnter world_masked = None"
  by (simp_all add: world_masked_def addCollider_def addCollider_scaled_def CollisionWorld_new_def Let_def)

lemma getCollider_nth:
  assumes "wf_world w" "getCollider w a = Some ea"
  obtains i where "i < length (colliders w)" "colliders w ! i = ea" "entityId ea = a"
    "entityIndexMap w a = Some i"
proof -
  from assms(2) obtain i where i: "entityIndexMap w a = Some i" "ea = colliders w ! i"
    by (auto simp: getCollider_def split: option.splits)
  from wf_index_in_range [OF assms(1) i(1)] i that show thesis by simp
qed

lemma wf_same_id_same_entry:
  assumes "wf_world w" "e \<in> set (colliders w)" "e' \<in> set (colliders w)" "entityId e = entityId e'"
  shows "e = e'"
proof -
  from assms(2,3) obtain i j where ij: "i < length (colliders w)" "colliders w ! i = e"
    "j < length (colliders w)" "colliders w ! j = e'" by (auto simp: in_set_conv_nth)
  have "entityIndexMap w (entityId e) = Some i" "entityIndexMap w (entityId e') = Some j"
    using assms(1) ij unfolding wf_world_def by auto
  with assms(4) have "i = j" by simp
  with ij show ?thesis by simp
qed

lemma collisionInfo_of_simps:
  "entityA (collisionInfo_of a b) = entityId a"
  "entityB (collisionInfo_of a b) = entityId b"
  "boundsA (collisionInfo_of a b) = ColliderEntry_getBounds a"
  "boundsB (collisionInfo_of a b) = ColliderEntry_getBounds b"
  "isTrigger (collisionInfo_of a b) = (col_isTrigger (collider a) \<or> col_isTrigger (collider b))"
  by (simp_all add: collisionInfo_of_def)

lemma collisionInfo_of_overlap:
  "intersects (ColliderEntry_getBounds a) (ColliderEntry_getBounds b) \<Longrightarrow>
   overlap_formula (collisionInfo_of a b)"
  by (simp add: overlap_formula_def collisionInfo_of_def intersects_def)

lemma with_mask_simps:
  "ColliderEntry_getBounds (with_mask fm e) = ColliderEntry_getBounds e"
  "collisionInfo_of (with_mask fm a) (with_mask fm b) = collisionInfo_of a b"
  by (simp_all add: with_mask_def ColliderEntry_getBounds_def getBounds_def collisionInfo_of_def)

lemma pairs_from_with_mask:
  assumes "k < length cs"
  shows "pairs_from (map (with_mask fm) cs) k = pairs_from cs k"
  using assms
  by (simp add: pairs_from_def drop_map filter_map o_def with_mask_simps)

lemma detectCollisions_with_mask:
  "detectCollisions (w\<lparr>colliders := map (with_mask fm) (colliders w)\<rparr>) = detectCollisions w"
proof -
  have "map (pairs_from (map (with_mask fm) (colliders w))) [0..<length (colliders w)]
      = map (pairs_from (colliders w)) [0..<length (colliders w)]"
    by (rule map_cong) (simp_all add: pairs_from_with_mask)
  then have c: "concat (map (pairs_from (map (with_mask fm) (colliders w))) [0..<length (colliders w)])
      = concat (map (pairs_from (colliders w)) [0..<length (colliders w)])"
    by (rule arg_cong)
  show ?thesis by (simp add: detectCollisions_eq c)
qed

text \<open>
  C1. In a well-formed world with two distinct registered entities \<open>a\<close> and \<open>b\<close> whose
  world AABBs intersect and where \<open>a\<close>'s mask cannot collide with \<open>b\<close>'s,
  \<^verbatim>\<open>detectCollisions()\<close> contains the record of the pair (in the order of the two
  entries in the vector), while no record of \<^verbatim>\<open>detectCollisionsForEntity(a)\<close> has
  \<open>b\<close> as its second entity. The all-pairs result is the same for any other layer
  matrix and any other collision masks of the entries.
\<close>

theorem detectCollisions_unfiltered_entity_filtered:
  assumes wf: "wf_world w"
    and ga: "getCollider w a = Some ea" and gb: "getCollider w b = Some eb" and ne: "a \<noteq> b"
    and ov: "intersects (ColliderEntry_getBounds ea) (ColliderEntry_getBounds eb)"
    and inc: "\<not> canCollideWith (col_collisionMask (collider ea)) (col_collisionMask (collider eb))"
  shows "(collisionInfo_of ea eb \<in> set (detectCollisions w)
          \<or> collisionInfo_of eb ea \<in> set (detectCollisions w))
       \<and> (\<forall>info \<in> set (detectCollisionsForEntity w a). entityB info \<noteq> b)
       \<and> detectCollisions (w\<lparr>layerMatrix := m\<rparr>) = detectCollisions w
       \<and> detectCollisions (w\<lparr>colliders := map (with_mask fm) (colliders w)\<rparr>) = detectCollisions w"
proof (intro conjI)
  show "detectCollisions (w\<lparr>layerMatrix := m\<rparr>) = detectCollisions w"
    by (simp add: detectCollisions_def)
  show "detectCollisions (w\<lparr>colliders := map (with_mask fm) (colliders w)\<rparr>) = detectCollisions w"
    by (rule detectCollisions_with_mask)
  from getCollider_nth [OF wf ga] obtain i where
    i: "i < length (colliders w)" "colliders w ! i = ea" "entityId ea = a" by blast
  from getCollider_nth [OF wf gb] obtain j where
    j: "j < length (colliders w)" "colliders w ! j = eb" "entityId eb = b" by blast
  have "i \<noteq> j" using i j ne by auto
  then consider "i < j" | "j < i" by arith
  then show "collisionInfo_of ea eb \<in> set (detectCollisions w)
          \<or> collisionInfo_of eb ea \<in> set (detectCollisions w)"
  proof cases
    case 1
    with i j ov have "collisionInfo_of ea eb \<in> set (detectCollisions w)"
      unfolding in_detectCollisions by blast
    then show ?thesis ..
  next
    case 2
    from ov have "intersects (ColliderEntry_getBounds eb) (ColliderEntry_getBounds ea)"
      by (simp add: intersects_sym)
    with 2 i j have "collisionInfo_of eb ea \<in> set (detectCollisions w)"
      unfolding in_detectCollisions by blast
    then show ?thesis ..
  qed
  show "\<forall>info \<in> set (detectCollisionsForEntity w a). entityB info \<noteq> b"
  proof
    fix info
    assume "info \<in> set (detectCollisionsForEntity w a)"
    then obtain other where o: "other \<in> set (colliders w)" "info = collisionInfo_of ea other"
      "canCollideWith (col_collisionMask (collider ea)) (col_collisionMask (collider other))"
      using ga by (auto simp: detectCollisionsForEntity_eq)
    show "entityB info \<noteq> b"
    proof
      assume "entityB info = b"
      with o(2) j(3) have "entityId other = entityId eb" by (simp add: collisionInfo_of_simps)
      moreover have "eb \<in> set (colliders w)" using j by auto
      ultimately have "other = eb" using wf o(1) by (intro wf_same_id_same_entry)
      with o(3) inc show False by simp
    qed
  qed
qed

lemma masked_entries_eval:
  "ColliderEntry_getBounds (mkColliderEntry 1 0 0 1 1 player_vs_terrain) = mkAABB 0 0 10 10"
  "ColliderEntry_getBounds (mkColliderEntry 2 5 5 1 1 enemy_vs_all) = mkAABB 5 5 10 10"
  "col_collisionMask (collider (mkColliderEntry 1 0 0 1 1 player_vs_terrain))
     = \<lparr>layer = Layer_Player, collidesWith = Layer_Terrain\<rparr>"
  "col_collisionMask (collider (mkColliderEntry 2 5 5 1 1 enemy_vs_all))
     = \<lparr>layer = Layer_Enemy, collidesWith = Layer_All\<rparr>"
  "entityId (mkColliderEntry 1 0 0 1 1 player_vs_terrain) = 1"
  "entityId (mkColliderEntry 2 5 5 1 1 enemy_vs_all) = 2"
  by (simp_all add: ColliderEntry_getBounds_def mkColliderEntry_def getBounds_def
      player_vs_terrain_def enemy_vs_all_def ColliderComponent_sized_def Let_def)

lemma masked_geometry_eval:
  "intersects (mkAABB 0 0 10 10) (mkAABB 5 5 10 10)"
  "intersects (mkAABB 5 5 10 10) (mkAABB 0 0 10 10)"
  "\<not> canCollideWith \<lparr>layer = Layer_Player, collidesWith = Layer_Terrain\<rparr>
                      \<lparr>layer = Layer_Enemy, collidesWith = Layer_All\<rparr>"
  "canCollideWith \<lparr>layer = Layer_Enemy, collidesWith = Layer_All\<rparr>
                  \<lparr>layer = Layer_Player, collidesWith = Layer_Terrain\<rparr>"
  by (simp_all add: intersects_def mkAABB_def left_def right_def top_def bottom_def
      canCollideWith_def hasLayer_def Layer_Player_def Layer_Terrain_def Layer_Enemy_def
      Layer_All_def Layer_None_def)

lemma world_masked_detect:
  "detectCollisions world_masked =
     [collisionInfo_of (mkColliderEntry 1 0 0 1 1 player_vs_terrain)
                       (mkColliderEntry 2 5 5 1 1 enemy_vs_all)]"
  by (simp add: detectCollisions_eq world_masked_eval pairs_from_def upt_rec
      masked_entries_eval masked_geometry_eval)

lemma world_masked_detect_for_1:
  "detectCollisionsForEntity world_masked 1 = []"
  by (simp add: detectCollisionsForEntity_eq getCollider_def world_masked_eval
      masked_entries_eval masked_geometry_eval)

lemma world_masked_detect_for_2:
  "detectCollisionsForEntity world_masked 2 =
     [collisionInfo_of (mkColliderEntry 2 5 5 1 1 enemy_vs_all)
                       (mkColliderEntry 1 0 0 1 1 player_vs_terrain)]"
  by (simp add: detectCollisionsForEntity_eq getCollider_def world_masked_eval
      masked_entries_eval masked_geometry_eval)

lemma world_masked_check:
  "\<not> checkCollision world_masked 1 2" "checkCollision world_masked 2 1"
  by (simp_all add: checkCollision_def checkCollision_info_eq getCollider_def world_masked_eval
      masked_entries_eval masked_geometry_eval)

text \<open>
  The Player that only collides with Terrain against the overlapping Enemy: the pair is
  in the all-pairs result and the Player's own query is empty.
\<close>

theorem detectCollisions_unfiltered_entity_filtered_witness:
  "wf_world (world_masked :: unit CollisionWorld)
   \<and> getCollider (world_masked :: unit CollisionWorld) 1
        = Some (mkColliderEntry 1 0 0 1 1 player_vs_terrain)
   \<and> getCollider (world_masked :: unit CollisionWorld) 2
        = Some (mkColliderEntry 2 5 5 1 1 enemy_vs_all)
   \<and> intersects (ColliderEntry_getBounds (mkColliderEntry 1 0 0 1 1 player_vs_terrain))
                 (ColliderEntry_getBounds (mkColliderEntry 2 5 5 1 1 enemy_vs_all))
   \<and> \<not> canCollideWith (col_collisionMask (collider (mkColliderEntry 1 0 0 1 1 player_vs_terrain)))
                        (col_collisionMask (collider (mkColliderEntry 2 5 5 1 1 enemy_vs_all)))
   \<and> (collisionInfo_of (mkColliderEntry 1 0 0 1 1 player_vs_terrain)
                        (mkColliderEntry 2 5 5 1 1 enemy_vs_all)
          \<in> set (detectCollisions (world_masked :: unit CollisionWorld))
        \<or> collisionInfo_of (mkColliderEntry 2 5 5 1 1 enemy_vs_all)
                            (mkColliderEntry 1 0 0 1 1 player_vs_terrain)
          \<in> set (detectCollisions (world_masked :: unit CollisionWorld)))
   \<and> 2 \<notin> entityB ` set (detectCollisionsForEntity (world_masked :: unit CollisionWorld) 1)
   \<and> 1 \<in> entityB ` set (detectCollisionsForEntity (world_masked :: unit CollisionWorld) 2)
   \<and> detectCollisions (world_masked :: unit CollisionWorld) \<noteq> []
   \<and> detectCollisionsForEntity (world_masked :: unit CollisionWorld) 1 = []"
proof -
  let ?w = "world_masked :: unit CollisionWorld"
  let ?e1 = "mkColliderEntry 1 0 0 1 1 player_vs_terrain"
  let ?e2 = "mkColliderEntry 2 5 5 1 1 enemy_vs_all"
  have g1: "getCollider ?w 1 = Some ?e1" by (simp add: getCollider_def world_masked_eval)
  have g2: "getCollider ?w 2 = Some ?e2" by (simp add: getCollider_def world_masked_eval)
  have ne: "(1 :: EntityID) \<noteq> 2" by simp
  have ov: "intersects (ColliderEntry_getBounds ?e1) (ColliderEntry_getBounds ?e2)"
    by (simp add: masked_entries_eval masked_geometry_eval)
  have inc: "\<not> canCollideWith (col_collisionMask (collider ?e1)) (col_collisionMask (collider ?e2))"
    by (simp add: masked_entries_eval masked_geometry_eval)
  note t = detectCollisions_unfiltered_entity_filtered [OF world_masked_wf g1 g2 ne ov inc]
  have d: "detectCollisions ?w \<noteq> []" by (simp add: world_masked_detect)
  from t have n: "2 \<notin> entityB ` set (detectCollisionsForEntity ?w 1)" by auto
  have r: "1 \<in> entityB ` set (detectCollisionsForEntity ?w 2)"
    by (simp add: world_masked_detect_for_2 collisionInfo_of_simps masked_entries_eval)
  have e: "detectCollisionsForEntity ?w 1 = []" by (rule world_masked_detect_for_1)
  from t have p: "collisionInfo_of ?e1 ?e2 \<in> set (detectCollisions ?w)
        \<or> collisionInfo_of ?e2 ?e1 \<in> set (detectCollisions ?w)" by blast
  show ?thesis
    by (intro conjI) (fact world_masked_wf g1 g2 ov inc p n r d e)+
qed

lemma overlap_depths_results:
  assumes wf: "wf_world w"
  shows "(\<forall>info \<in> set (detectCollisions w). overlap_formula info \<and> of_registered_pair w info)
       \<and> (\<forall>info \<in> set (detectCollisionsForEntity w eid). overlap_formula info \<and> of_registered_pair w info)
       \<and> (\<forall>info. checkCollision_info w a b outInfo = (True, info) \<longrightarrow>
             overlap_formula info \<and> of_registered_pair w info)"
proof (intro conjI ballI allI impI)
  fix info
  assume "info \<in> set (detectCollisions w)"
  then obtain i j where ij: "i < j" "j < length (colliders w)"
    "intersects (ColliderEntry_getBounds (colliders w ! i)) (ColliderEntry_getBounds (colliders w ! j))"
    "info = collisionInfo_of (colliders w ! i) (colliders w ! j)"
    unfolding in_detectCollisions by blast
  then have "i < length (colliders w)" by arith
  then have "colliders w ! i \<in> set (colliders w)" "colliders w ! j \<in> set (colliders w)"
    using ij(2) by simp_all
  then show "of_registered_pair w info"
    unfolding of_registered_pair_def ij(4) collisionInfo_of_simps by blast
  show "overlap_formula info"
    unfolding ij(4) using ij(3) by (rule collisionInfo_of_overlap)
next
  fix info
  assume a: "info \<in> set (detectCollisionsForEntity w eid)"
  then obtain tgt where t: "getCollider w eid = Some tgt"
    by (cases "getCollider w eid") (simp_all add: detectCollisionsForEntity_eq)
  from a t obtain other where o: "other \<in> set (colliders w)" "info = collisionInfo_of tgt other"
    "intersects (ColliderEntry_getBounds tgt) (ColliderEntry_getBounds other)"
    by (auto simp: detectCollisionsForEntity_eq)
  from getCollider_own [OF wf t] have "tgt \<in> set (colliders w)" by simp
  with o(1) show "of_registered_pair w info"
    unfolding of_registered_pair_def o(2) collisionInfo_of_simps by blast
  show "overlap_formula info"
    unfolding o(2) using o(3) by (rule collisionInfo_of_overlap)
next
  fix info
  assume c: "checkCollision_info w a b outInfo = (True, info)"
  then obtain ea eb where e: "getCollider w a = Some ea" "getCollider w b = Some eb"
    "intersects (ColliderEntry_getBounds ea) (ColliderEntry_getBounds eb)"
    "info = (collisionInfo_of ea eb)\<lparr>entityA := a, entityB := b\<rparr>"
    by (auto simp: checkCollision_info_eq split: option.splits if_splits)
  from getCollider_own [OF wf e(1)] getCollider_own [OF wf e(2)]
  have own: "entityId ea = a" "ea \<in> set (colliders w)" "entityId eb = b" "eb \<in> set (colliders w)"
    by simp_all
  have i: "info = collisionInfo_of ea eb"
    unfolding e(4) using own(1,3) by (simp add: collisionInfo_of_def)
  from own(2,4) show "of_registered_pair w info"
    unfolding of_registered_pair_def i collisionInfo_of_simps by blast
  show "overlap_formula info"
    unfolding i using e(3) by (rule collisionInfo_of_overlap)
qed

lemma checkCollision_info_positive:
  assumes wf: "wf_world w"
    and ga: "getCollider w a = Some ea" and gb: "getCollider w b = Some eb"
    and ov: "intersects (ColliderEntry_getBounds ea) (ColliderEntry_getBounds eb)"
    and cc: "canCollideWith (col_collisionMask (collider ea)) (col_collisionMask (collider eb))"
  shows "checkCollision_info w a b outInfo = (True, collisionInfo_of ea eb)"
proof -
  from getCollider_own [OF wf ga] getCollider_own [OF wf gb]
  have own: "entityId ea = a" "entityId eb = b" by simp_all
  have "(collisionInfo_of ea eb)\<lparr>entityA := a, entityB := b\<rparr> = collisionInfo_of ea eb"
    using own by (simp add: collisionInfo_of_def)
  with ga gb ov cc show ?thesis
    by (simp add: checkCollision_info_eq)
qed

text \<open>
  C6. In a well-formed world, every record returned by \<^verbatim>\<open>detectCollisions\<close>, by
  \<^verbatim>\<open>detectCollisionsForEntity\<close> or by a successful \<^verbatim>\<open>checkCollision\<close> has
  \<open>overlapX = min (A.right - B.left) (B.right - A.left)\<close> and
  \<open>overlapY = min (A.bottom - B.top) (B.bottom - A.top)\<close> for its own two boxes \<open>A\<close> and
  \<open>B\<close>, which are the world AABBs of two registered entries and intersect; both
  depths are non-negative. \<^verbatim>\<open>checkCollision\<close> does succeed, with exactly that record,
  whenever both ids are registered, their boxes intersect and the first entry's mask can
  collide with the second's.
\<close>

theorem overlap_depths:
  assumes wf: "wf_world w"
  shows "(\<forall>info \<in> set (detectCollisions w). overlap_formula info \<and> of_registered_pair w info)
       \<and> (\<forall>info \<in> set (detectCollisionsForEntity w eid). overlap_formula info \<and> of_registered_pair w info)
       \<and> (\<forall>info. checkCollision_info w a b outInfo = (True, info) \<longrightarrow>
             overlap_formula info \<and> of_registered_pair w info)
       \<and> (\<forall>ea eb. getCollider w a = Some ea \<and> getCollider w b = Some eb
             \<and> intersects (ColliderEntry_getBounds ea) (ColliderEntry_getBounds eb)
             \<and> canCollideWith (col_collisionMask (collider ea)) (col_collisionMask (collider eb))
             \<longrightarrow> checkCollision_info w a b outInfo = (True, collisionInfo_of ea eb))"
proof -
  note r = overlap_depths_results [OF wf, of eid a b outInfo]
  have p: "\<forall>ea eb. getCollider w a = Some ea \<and> getCollider w b = Some eb
             \<and> intersects (ColliderEntry_getBounds ea) (ColliderEntry_getBounds eb)
             \<and> canCollideWith (col_collisionMask (collider ea)) (col_collisionMask (collider eb))
             \<longrightarrow> checkCollision_info w a b outInfo = (True, collisionInfo_of ea eb)"
    using checkCollision_info_positive [OF wf] by blast
  note r1 = r [THEN conjunct1]
  note r2 = r [THEN conjunct2, THEN conjunct1]
  note r3 = r [THEN conjunct2, THEN conjunct2]
  show ?thesis
    by (intro conjI) (fact r1 r2 r3 p)+
qed

text \<open>
  The boxes \<open>(0,0,10,10)\<close> and \<open>(5,5,10,10)\<close>: the all-pairs scan, the Enemy's own
  query and the pair check \<open>(2, 1)\<close> each report the pair, and both depths are 5.
\<close>

theorem overlap_depths_witness:
  "wf_world (world_masked :: unit CollisionWorld)
   \<and> collisionInfo_of (mkColliderEntry 1 0 0 1 1 player_vs_terrain)
                       (mkColliderEntry 2 5 5 1 1 enemy_vs_all)
         \<in> set (detectCollisions (world_masked :: unit CollisionWorld))
   \<and> overlap_formula (collisionInfo_of (mkColliderEntry 1 0 0 1 1 player_vs_terrain)
                                        (mkColliderEntry 2 5 5 1 1 enemy_vs_all))
   \<and> of_registered_pair (world_masked :: unit CollisionWorld)
         (collisionInfo_of (mkColliderEntry 1 0 0 1 1 player_vs_terrain)
                           (mkColliderEntry 2 5 5 1 1 enemy_vs_all))
   \<and> overlapX (collisionInfo_of (mkColliderEntry 1 0 0 1 1 player_vs_terrain)
                                 (mkColliderEntry 2 5 5 1 1 enemy_vs_all)) = 5
   \<and> overlapY (collisionInfo_of (mkColliderEntry 1 0 0 1 1 player_vs_terrain)
                                 (mkColliderEntry 2 5 5 1 1 enemy_vs_all)) = 5
   \<and> collisionInfo_of (mkColliderEntry 2 5 5 1 1 enemy_vs_all)
                       (mkColliderEntry 1 0 0 1 1 player_vs_terrain)
         \<in> set (detectCollisionsForEntity (world_masked :: unit CollisionWorld) 2)
   \<and> getCollider (world_masked :: unit CollisionWorld) 2
         = Some (mkColliderEntry 2 5 5 1 1 enemy_vs_all)
   \<and> getCollider (world_masked :: unit CollisionWorld) 1
         = Some (mkColliderEntry 1 0 0 1 1 player_vs_terrain)
   \<and> intersects (ColliderEntry_getBounds (mkColliderEntry 2 5 5 1 1 enemy_vs_all))
                 (ColliderEntry_getBounds (mkColliderEntry 1 0 0 1 1 player_vs_terrain))
   \<and> canCollideWith (col_collisionMask (collider (mkColliderEntry 2 5 5 1 1 enemy_vs_all)))
                     (col_collisionMask (collider (mkColliderEntry 1 0 0 1 1 player_vs_terrain)))
   \<and> checkCollision_info (world_masked :: unit CollisionWorld) 2 1
         (collisionInfo_of (mkColliderEntry 1 0 0 1 1 player_vs_terrain)
                           (mkColliderEntry 2 5 5 1 1 enemy_vs_all))
       = (True, collisionInfo_of (mkColliderEntry 2 5 5 1 1 enemy_vs_all)
                                 (mkColliderEntry 1 0 0 1 1 player_vs_terrain))
   \<and> overlap_formula (collisionInfo_of (mkColliderEntry 2 5 5 1 1 enemy_vs_all)
                                        (mkColliderEntry 1 0 0 1 1 player_vs_terrain))
   \<and> of_registered_pair (world_masked :: unit CollisionWorld)
         (collisionInfo_of (mkColliderEntry 2 5 5 1 1 enemy_vs_all)
                           (mkColliderEntry 1 0 0 1 1 player_vs_terrain))
   \<and> overlapX (snd (checkCollision_info (world_masked :: unit CollisionWorld) 2 1
         (collisionInfo_of (mkColliderEntry 1 0 0 1 1 player_vs_terrain)
                           (mkColliderEntry 2 5 5 1 1 enemy_vs_all)))) = 5
   \<and> overlapY (snd (checkCollision_info (world_masked :: unit CollisionWorld) 2 1
         (collisionInfo_of (mkColliderEntry 1 0 0 1 1 player_vs_terrain)
                           (mkColliderEntry 2 5 5 1 1 enemy_vs_all)))) = 5"
proof -
  let ?w = "world_masked :: unit CollisionWorld"
  let ?e1 = "mkColliderEntry 1 0 0 1 1 player_vs_terrain"
  let ?e2 = "mkColliderEntry 2 5 5 1 1 enemy_vs_all"
  let ?o = "collisionInfo_of ?e1 ?e2"
  note t = overlap_depths [OF world_masked_wf, of 2 2 1 ?o]
  have m1: "collisionInfo_of ?e1 ?e2 \<in> set (detectCollisions ?w)"
    by (simp add: world_masked_detect)
  have m2: "collisionInfo_of ?e2 ?e1 \<in> set (detectCollisionsForEntity ?w 2)"
    by (simp add: world_masked_detect_for_2)
  from t m1 have f1: "overlap_formula (collisionInfo_of ?e1 ?e2)"
    and r1: "of_registered_pair ?w (collisionInfo_of ?e1 ?e2)" by blast+
  have v: "overlapX (collisionInfo_of ?e1 ?e2) = 5" "overlapY (collisionInfo_of ?e1 ?e2) = 5"
    by (simp_all add: collisionInfo_of_def masked_entries_eval mkAABB_def left_def right_def
        top_def bottom_def)
  have g2: "getCollider ?w 2 = Some ?e2" by (simp add: getCollider_def world_masked_eval)
  have g1: "getCollider ?w 1 = Some ?e1" by (simp add: getCollider_def world_masked_eval)
  have ov: "intersects (ColliderEntry_getBounds ?e2) (ColliderEntry_getBounds ?e1)"
    by (simp add: masked_entries_eval masked_geometry_eval)
  have cc: "canCollideWith (col_collisionMask (collider ?e2)) (col_collisionMask (collider ?e1))"
    by (simp add: masked_entries_eval masked_geometry_eval)
  from t g2 g1 ov cc
  have c: "checkCollision_info ?w 2 1 ?o = (True, collisionInfo_of ?e2 ?e1)" by blast
  from t c have f2: "overlap_formula (collisionInfo_of ?e2 ?e1)"
    and r2: "of_registered_pair ?w (collisionInfo_of ?e2 ?e1)" by blast+
  have v2: "overlapX (snd (checkCollision_info ?w 2 1 ?o)) = 5"
           "overlapY (snd (checkCollision_info ?w 2 1 ?o)) = 5"
    unfolding c
    by (simp_all add: collisionInfo_of_def masked_entries_eval mkAABB_def left_def right_def
        top_def bottom_def)
  show ?thesis
    by (intro conjI) (fact world_masked_wf m1 f1 r1 v m2 g2 g1 ov cc c f2 r2 v2)+
qed

section \<open>Pair check\<close>

text \<open>
  C4. In a well-formed world \<^verbatim>\<open>checkCollision(a, b, outInfo)\<close> returns false exactly
  when \<open>a\<close> is unregistered, or \<open>b\<close> is unregistered, or the two entries' world AABBs do
  not intersect, or \<open>a\<close>'s mask cannot collide with \<open>b\<close>'s. When it returns false
  \<open>outInfo\<close> is unchanged; when it returns true \<open>outInfo\<close> holds the two ids, the two
  world AABBs, the two overlap depths and the disjunction of the two trigger flags. The
  two-argument overload returns the same verdict.
\<close>

theorem checkCollision_verdict:
  assumes wf: "wf_world w"
  shows "(fst (checkCollision_info w a b outInfo) = False \<longleftrightarrow>
            \<not> hasCollider w a \<or> \<not> hasCollider w b
            \<or> (\<exists>ea eb. getCollider w a = Some ea \<and> getCollider w b = Some eb
                 \<and> (\<not> intersects (ColliderEntry_getBounds ea) (ColliderEntry_getBounds eb)
                      \<or> \<not> canCollideWith (col_collisionMask (collider ea))
                                            (col_collisionMask (collider eb)))))
       \<and> (\<not> fst (checkCollision_info w a b outInfo) \<longrightarrow>
            snd (checkCollision_info w a b outInfo) = outInfo)
       \<and> (fst (checkCollision_info w a b outInfo) \<longrightarrow>
            (\<exists>ea eb. getCollider w a = Some ea \<and> getCollider w b = Some eb
               \<and> entityId ea = a \<and> entityId eb = b
               \<and> snd (checkCollision_info w a b outInfo) =
                   \<lparr>entityA = a, entityB = b,
                    boundsA = ColliderEntry_getBounds ea, boundsB = ColliderEntry_getBounds eb,
                    overlapX = min (right (ColliderEntry_getBounds ea) - left (ColliderEntry_getBounds eb))
                                   (right (ColliderEntry_getBounds eb) - left (ColliderEntry_getBounds ea)),
                    overlapY = min (bottom (ColliderEntry_getBounds ea) - top (ColliderEntry_getBounds eb))
                                   (bottom (ColliderEntry_getBounds eb) - top (ColliderEntry_getBounds ea)),
                    isTrigger = (col_isTrigger (collider ea) \<or> col_isTrigger (collider eb))\<rparr>))
       \<and> checkCollision w a b = fst (checkCollision_info w a b outInfo)"
proof -
  have has: "hasCollider w x \<longleftrightarrow> getCollider w x \<noteq> None" for x
    by (simp add: hasCollider_def getCollider_def split: option.splits)
  show ?thesis
  proof (cases "getCollider w a")
    case None
    then show ?thesis
      by (simp add: checkCollision_info_eq checkCollision_def has)
  next
    case ea: (Some ea)
    show ?thesis
    proof (cases "getCollider w b")
      case None
      with ea show ?thesis
        by (simp add: checkCollision_info_eq checkCollision_def has)
    next
      case eb: (Some eb)
      from getCollider_own [OF wf ea] getCollider_own [OF wf eb]
      have own: "entityId ea = a" "entityId eb = b" by simp_all
      show ?thesis
      proof (cases "intersects (ColliderEntry_getBounds ea) (ColliderEntry_getBounds eb)
              \<and> canCollideWith (col_collisionMask (collider ea)) (col_collisionMask (collider eb))")
        case True
        with ea eb own show ?thesis
          by (simp add: checkCollision_info_eq checkCollision_def has collisionInfo_of_def)
      next
        case False
        with ea eb show ?thesis
          by (auto simp add: checkCollision_info_eq checkCollision_def has)
      qed
    qed
  qed
qed

text \<open>
  On the Player and Enemy world: \<open>(1, 2)\<close> is rejected by the mask and leaves the
  record alone, \<open>(2, 1)\<close> is accepted, and \<open>(1, 3)\<close> is rejected because 3 is not
  registered.
\<close>

theorem checkCollision_verdict_witness:
  "wf_world (world_masked :: unit CollisionWorld)
   \<and> fst (checkCollision_info (world_masked :: unit CollisionWorld) 1 2
            (collisionInfo_of (mkColliderEntry 2 5 5 1 1 enemy_vs_all)
                              (mkColliderEntry 2 5 5 1 1 enemy_vs_all))) = False
   \<and> snd (checkCollision_info (world_masked :: unit CollisionWorld) 1 2
            (collisionInfo_of (mkColliderEntry 2 5 5 1 1 enemy_vs_all)
                              (mkColliderEntry 2 5 5 1 1 enemy_vs_all)))
       = collisionInfo_of (mkColliderEntry 2 5 5 1 1 enemy_vs_all)
                          (mkColliderEntry 2 5 5 1 1 enemy_vs_all)
   \<and> fst (checkCollision_info (world_masked :: unit CollisionWorld) 2 1
            (collisionInfo_of (mkColliderEntry 2 5 5 1 1 enemy_vs_all)
                              (mkColliderEntry 2 5 5 1 1 enemy_vs_all)))
   \<and> fst (checkCollision_info (world_masked :: unit CollisionWorld) 1 3
            (collisionInfo_of (mkColliderEntry 2 5 5 1 1 enemy_vs_all)
                              (mkColliderEntry 2 5 5 1 1 enemy_vs_all))) = False"
proof -
  let ?w = "world_masked :: unit CollisionWorld"
  let ?e1 = "mkColliderEntry 1 0 0 1 1 player_vs_terrain"
  let ?e2 = "mkColliderEntry 2 5 5 1 1 enemy_vs_all"
  let ?o = "collisionInfo_of ?e2 ?e2"
  note t12 = checkCollision_verdict [OF world_masked_wf, of 1 2 ?o]
  note t21 = checkCollision_verdict [OF world_masked_wf, of 2 1 ?o]
  note t13 = checkCollision_verdict [OF world_masked_wf, of 1 3 ?o]
  have g1: "getCollider ?w 1 = Some ?e1" by (simp add: getCollider_def world_masked_eval)
  have g2: "getCollider ?w 2 = Some ?e2" by (simp add: getCollider_def world_masked_eval)
  have h3: "\<not> hasCollider ?w 3" by (simp add: hasCollider_def world_masked_eval)
  have inc: "\<not> canCollideWith (col_collisionMask (collider ?e1)) (col_collisionMask (collider ?e2))"
    by (simp add: masked_entries_eval masked_geometry_eval)
  from t12 g1 g2 inc have a: "fst (checkCollision_info ?w 1 2 ?o) = False" by blast
  with t12 have b: "snd (checkCollision_info ?w 1 2 ?o) = ?o" by blast
  have "checkCollision ?w 2 1" by (rule world_masked_check(2))
  with t21 have c: "fst (checkCollision_info ?w 2 1 ?o)" by blast
  from t13 h3 have d: "fst (checkCollision_info ?w 1 3 ?o) = False" by blast
  from world_masked_wf a b c d show ?thesis by blast
qed

section \<open>Callback dispatch\<close>

lemma processCollisions_loop_fold:
  "processCollisions_loop w infos s = fold (dispatch_step w) infos s"
  by (induction infos arbitrary: s) (simp_all add: dispatch_step_def split: option.splits)

lemma fold_logging:
  assumes "onTriggerEnter w = Some log_trigger" "onCollision w = Some log_collision"
  shows "fold (dispatch_step w) infos t = t @ map dispatch_of infos"
  using assms
  by (induction infos arbitrary: t)
     (simp_all add: dispatch_step_def dispatch_of_def log_trigger_def log_collision_def)

lemma dispatch_step_callbacks:
  "onTriggerEnter w' = onTriggerEnter w \<Longrightarrow> onCollision w' = onCollision w \<Longrightarrow>
   dispatch_step w' = dispatch_step w"
  by (rule ext) (simp add: dispatch_step_def)

lemma world_logged_eval:
  "colliders world_logged = colliders (world_masked :: Dispatch list CollisionWorld)"
  "entityIndexMap world_logged = entityIndexMap (world_masked :: Dispatch list CollisionWorld)"
  "layerMatrix world_logged = layerMatrix (world_masked :: Dispatch list CollisionWorld)"
  "onTriggerEnter world_logged = Some log_trigger"
  "onCollision world_logged = Some log_collision"
  by (simp_all add: world_logged_def setCollisionCallback_def setTriggerEnterCallback_def)

lemma world_logged_wf: "wf_world world_logged"
  using world_masked_wf [where ?'a = "Dispatch list"]
  by (simp add: wf_world_def world_logged_eval)

lemma world_logged_detect:
  "detectCollisions world_logged = detectCollisions (world_masked :: Dispatch list CollisionWorld)"
  by (simp add: detectCollisions_def world_logged_eval)

lemma world_logged_check: "\<not> checkCollision world_logged 1 2"
  by (simp add: checkCollision_def checkCollision_info_eq getCollider_def world_logged_eval
      world_masked_eval masked_entries_eval masked_geometry_eval)

lemma world_logged_process:
  "processCollisions world_logged [] =
     [CollisionCall (collisionInfo_of (mkColliderEntry 1 0 0 1 1 player_vs_terrain)
                                      (mkColliderEntry 2 5 5 1 1 enemy_vs_all))]"
  by (simp add: processCollisions_def processCollisions_loop_fold world_logged_detect
      world_masked_detect dispatch_step_def world_logged_eval log_collision_def
      collisionInfo_of_simps mkColliderEntry_def player_vs_terrain_def enemy_vs_all_def
      ColliderComponent_sized_def)

text \<open>
  C3. \<^verbatim>\<open>processCollisions()\<close> goes through the result of \<^verbatim>\<open>detectCollisions()\<close> in
  order and calls, for a record with \<open>isTrigger\<close> set, the trigger-enter callback on the
  two ids and otherwise the collision callback on the record (an empty callback is
  skipped); with logging callbacks the log grows by exactly one call per record, in scan
  order. The outcome does not change when the layer matrix or the entries' collision
  masks are replaced. On the Player and Enemy world the collision callback is called for
  the pair \<open>(1, 2)\<close> although \<^verbatim>\<open>checkCollision(1, 2)\<close> returns false.
\<close>

theorem processCollisions_dispatch:
  "processCollisions w s =
     fold (\<lambda>info. if isTrigger info
                  then (case onTriggerEnter w of Some f \<Rightarrow> f (entityA info) (entityB info) | None \<Rightarrow> id)
                  else (case onCollision w of Some g \<Rightarrow> g info | None \<Rightarrow> id))
       (detectCollisions w) s
   \<and> (onTriggerEnter wl = Some log_trigger \<and> onCollision wl = Some log_collision \<longrightarrow>
        processCollisions wl t = t @ map dispatch_of (detectCollisions wl))
   \<and> processCollisions (w\<lparr>layerMatrix := m\<rparr>) s = processCollisions w s
   \<and> processCollisions (w\<lparr>colliders := map (with_mask fm) (colliders w)\<rparr>) s = processCollisions w s
   \<and> wf_world world_logged
   \<and> \<not> checkCollision world_logged 1 2
   \<and> processCollisions world_logged [] =
       [CollisionCall (collisionInfo_of (mkColliderEntry 1 0 0 1 1 player_vs_terrain)
                                        (mkColliderEntry 2 5 5 1 1 enemy_vs_all))]"
proof (intro conjI impI)
  have "dispatch_step w = (\<lambda>info. if isTrigger info
                  then (case onTriggerEnter w of Some f \<Rightarrow> f (entityA info) (entityB info) | None \<Rightarrow> id)
                  else (case onCollision w of Some g \<Rightarrow> g info | None \<Rightarrow> id))"
    by (rule ext) (simp add: dispatch_step_def)
  then show "processCollisions w s =
     fold (\<lambda>info. if isTrigger info
                  then (case onTriggerEnter w of Some f \<Rightarrow> f (entityA info) (entityB info) | None \<Rightarrow> id)
                  else (case onCollision w of Some g \<Rightarrow> g info | None \<Rightarrow> id))
       (detectCollisions w) s"
    by (simp add: processCollisions_def processCollisions_loop_fold)
next
  assume "onTriggerEnter wl = Some log_trigger \<and> onCollision wl = Some log_collision"
  then show "processCollisions wl t = t @ map dispatch_of (detectCollisions wl)"
    by (simp add: processCollisions_def processCollisions_loop_fold fold_logging)
next
  have "dispatch_step (w\<lparr>layerMatrix := m\<rparr>) = dispatch_step w"
    by (rule dispatch_step_callbacks) simp_all
  then show "processCollisions (w\<lparr>layerMatrix := m\<rparr>) s = processCollisions w s"
    by (simp add: processCollisions_def processCollisions_loop_fold detectCollisions_def)
next
  have "dispatch_step (w\<lparr>colliders := map (with_mask fm) (colliders w)\<rparr>) = dispatch_step w"
    by (rule dispatch_step_callbacks) simp_all
  then show "processCollisions (w\<lparr>colliders := map (with_mask fm) (colliders w)\<rparr>) s
             = processCollisions w s"
    by (simp add: processCollisions_def processCollisions_loop_fold detectCollisions_with_mask)
qed (rule world_logged_wf world_logged_check world_logged_process)+

text \<open>The logging world: one collision call, for the pair that the pair check rejects.\<close>

theorem processCollisions_dispatch_witness:
  "onTriggerEnter world_logged = Some log_trigger
   \<and> onCollision world_logged = Some log_collision
   \<and> processCollisions world_logged [] = map dispatch_of (detectCollisions world_logged)
   \<and> map dispatch_of (detectCollisions world_logged) =
       [CollisionCall (collisionInfo_of (mkColliderEntry 1 0 0 1 1 player_vs_terrain)
                                        (mkColliderEntry 2 5 5 1 1 enemy_vs_all))]
   \<and> \<not> checkCollision world_logged 1 2"
proof -
  note t = processCollisions_dispatch [of world_logged "[]" world_logged "[]"]
  from t world_logged_eval(4,5)
  have a: "processCollisions world_logged [] = [] @ map dispatch_of (detectCollisions world_logged)"
    by blast
  from t have b: "processCollisions world_logged [] =
       [CollisionCall (collisionInfo_of (mkColliderEntry 1 0 0 1 1 player_vs_terrain)
                                        (mkColliderEntry 2 5 5 1 1 enemy_vs_all))]"
    and c: "\<not> checkCollision world_logged 1 2" by blast+
  from a b c world_logged_eval(4,5) show ?thesis by simp
qed

end
